theory Spec2Isabelle
  imports Main "HOL-Library.Word"
begin

chapter \<open>Model\<close>

section \<open>RPC transport (services/websocket.js and the monolithic index.js)\<close>

text \<open>
  The module-level variables \<^verbatim>\<open>ws\<close>, \<^verbatim>\<open>requestId\<close>, \<^verbatim>\<open>pendingRequests\<close>,
  \<^verbatim>\<open>isConnected\<close> and \<^verbatim>\<open>reconnectAttempts\<close> become one record. The socket object
  itself is outside the program; only whether \<^verbatim>\<open>ws\<close> is \<^verbatim>\<open>null\<close> is kept. A pending
  entry \<^verbatim>\<open>{resolve, reject}\<close> stands for the caller's promise; it is represented by
  membership of the request id in the table (the keys of the object), and settling a promise is an effect.
\<close>

datatype effect =
    SetTimeoutConnect nat
  | SetTimeoutCheck nat
  | SetTimeoutExpire nat
  | ShowDisconnected
  | UpdateAllNodeInfo
  | ShowConnected
  | NewWebSocket
  | WsSend nat
  | Resolve nat
  | Reject nat string
  | RejectConnectionTimeout
  | LogMessage

record transport =
  ws_null :: bool
  requestId :: nat
  pendingRequests :: "nat set"
  isConnected :: bool
  reconnectAttempts :: nat

definition maxReconnectAttempts :: nat where
  "maxReconnectAttempts = 5"

text \<open>\<^verbatim>\<open>connectWebSocket\<close>: returns at once when \<^verbatim>\<open>ws !== null\<close>, otherwise creates the socket.\<close>

definition connectWebSocket :: "transport \<Rightarrow> transport \<times> effect list" where
  "connectWebSocket t =
     (if \<not> ws_null t then (t, [])
      else (t\<lparr>ws_null := False\<rparr>, [NewWebSocket]))"

definition ws_onopen :: "transport \<Rightarrow> transport \<times> effect list" where
  "ws_onopen t = (t\<lparr>isConnected := True, reconnectAttempts := 0\<rparr>, [ShowConnected])"

definition ws_onerror :: "transport \<Rightarrow> transport \<times> effect list" where
  "ws_onerror t = (t\<lparr>isConnected := False\<rparr>, [])"

definition ws_onclose :: "transport \<Rightarrow> transport \<times> effect list" where
  "ws_onclose t =
     (let t1 = t\<lparr>isConnected := False, ws_null := True\<rparr> in
      if reconnectAttempts t1 < maxReconnectAttempts then
        (let t2 = t1\<lparr>reconnectAttempts := reconnectAttempts t1 + 1\<rparr>;
             delay = min (1000 * reconnectAttempts t2) 5000
         in (t2, [SetTimeoutConnect delay]))
      else (t1, [ShowDisconnected, UpdateAllNodeInfo]))"

text \<open>
  \<^verbatim>\<open>ws.onmessage\<close> for a parsed response carrying the id \<^verbatim>\<open>rid\<close> and, when the node
  reported one, the error message. An id of 0 is falsy in the source and is never looked
  up in the table. A message that does not parse is only logged and changes nothing.
\<close>

definition ws_onmessage :: "nat \<Rightarrow> string option \<Rightarrow> transport \<Rightarrow> transport \<times> effect list" where
  "ws_onmessage rid err t =
     (if rid \<noteq> 0 \<and> rid \<in> pendingRequests t then
        (t\<lparr>pendingRequests := pendingRequests t - {rid}\<rparr>,
         [case err of Some m \<Rightarrow> Reject rid m | None \<Rightarrow> Resolve rid])
      else (t, [LogMessage]))"

text \<open>
  \<^verbatim>\<open>sendRpcRequest\<close> runs in up to three turns of the event loop. Called on a
  transport that is not connected, it starts a 1000 ms timer and calls
  \<^verbatim>\<open>checkConnection\<close>, which tries to connect and calls itself again after 500 ms.
  A later \<^verbatim>\<open>checkConnection\<close> that finds the transport connected lets the call go
  on: it takes the next id, registers the promise and sends. When the 1000 ms timer
  fires first, the caller's promise is rejected with the error
  \<^verbatim>\<open>Connection timeout: Unable to connect to Celestia node. ...\<close> and no id is taken
  (\<open>RejectConnectionTimeout\<close>). Called on a connected transport, it takes the id,
  registers and sends at once. \<open>issueRequest\<close> is the part from
  \<^verbatim>\<open>const id = requestId++\<close> on, with its own test of \<^verbatim>\<open>isConnected\<close>.
\<close>

definition issueRequest :: "transport \<Rightarrow> transport \<times> effect list" where
  "issueRequest t =
     (let rid = requestId t; t1 = t\<lparr>requestId := rid + 1\<rparr> in
      if \<not> isConnected t1 then
        (t1\<lparr>pendingRequests := pendingRequests t1 - {rid}\<rparr>,
         [Reject rid ''Not connected to Celestia node''])
      else (t1\<lparr>pendingRequests := insert rid (pendingRequests t1)\<rparr>, [WsSend rid]))"

definition checkConnection :: "transport \<Rightarrow> transport \<times> effect list" where
  "checkConnection t =
     (if isConnected t then issueRequest t
      else (let (t1, out) = connectWebSocket t in (t1, out @ [SetTimeoutCheck 500])))"

definition sendRpcRequest :: "transport \<Rightarrow> transport \<times> effect list" where
  "sendRpcRequest t =
     (if \<not> isConnected t then
        (let (t1, out) = checkConnection t in (t1, SetTimeoutExpire 1000 # out))
      else issueRequest t)"

definition connectionTimeout :: "transport \<Rightarrow> transport \<times> effect list" where
  "connectionTimeout t = (t, [RejectConnectionTimeout])"

text \<open>
  The events of the transport: the handlers of the socket, a call of
  \<^verbatim>\<open>connectWebSocket\<close> (by the reconnect timer or at page load), a call of
  \<^verbatim>\<open>sendRpcRequest\<close> (\<open>Send\<close>), a firing of its check timer before the wait has
  ended (\<open>Check\<close>) and the firing of its 1000 ms timer (\<open>Expire\<close>).
\<close>

datatype event =
  Close | Open | Connect | Error | Message nat "string option" | Send | Check | Expire

fun step :: "transport \<Rightarrow> event \<Rightarrow> transport \<times> effect list" where
  "step t Close = ws_onclose t"
| "step t Open = ws_onopen t"
| "step t Connect = connectWebSocket t"
| "step t Error = ws_onerror t"
| "step t (Message rid err) = ws_onmessage rid err t"
| "step t Send = sendRpcRequest t"
| "step t Check = checkConnection t"
| "step t Expire = connectionTimeout t"

fun run :: "transport \<Rightarrow> event list \<Rightarrow> transport \<times> effect list" where
  "run t [] = (t, [])"
| "run t (e # es) =
     (let (t1, out1) = step t e; (t2, out2) = run t1 es in (t2, out1 @ out2))"

fun is_settle :: "effect \<Rightarrow> bool" where
  "is_settle (Resolve _) = True"
| "is_settle (Reject _ _) = True"
| "is_settle RejectConnectionTimeout = True"
| "is_settle _ = False"

fun delays :: "effect list \<Rightarrow> nat list" where
  "delays [] = []"
| "delays (SetTimeoutConnect d # es) = d # delays es"
| "delays (_ # es) = delays es"


text \<open>Concrete transport states used to evaluate the handlers.\<close>

definition fresh_transport :: transport where
  "fresh_transport =
     \<lparr>ws_null = True, requestId = 1, pendingRequests = {}, isConnected = False,
      reconnectAttempts = 0\<rparr>"

definition busy_transport :: transport where
  "busy_transport =
     \<lparr>ws_null = False, requestId = 2, pendingRequests = {1}, isConnected = True,
      reconnectAttempts = 0\<rparr>"

definition six_closes :: "event list" where
  "six_closes =
     [Close, Connect, Close, Connect, Close, Connect, Close, Connect, Close, Connect, Close]"

section \<open>Bytes, hexadecimal text and base64\<close>

text \<open>
  A \<^verbatim>\<open>Uint8Array\<close> or \<^verbatim>\<open>Buffer\<close> is a list of 8-bit words. A JavaScript string is a
  \<^typ>\<open>string\<close>; the strings handled here (base64 and hexadecimal text, and the
  ``binary strings'' produced by \<^verbatim>\<open>atob\<close>) only hold code units below 256, which is
  what \<^typ>\<open>char\<close> holds. \<^verbatim>\<open>charCodeAt\<close> is \<^term>\<open>of_char\<close> and
  \<^verbatim>\<open>String.fromCharCode\<close> on a byte is \<^term>\<open>char_of\<close>.
\<close>

type_synonym byte = "8 word"

definition charCodeAt :: "char \<Rightarrow> nat" where
  "charCodeAt c = of_char c"

definition fromCharCode :: "byte \<Rightarrow> char" where
  "fromCharCode b = char_of (unat b)"

definition byte_of_char :: "char \<Rightarrow> byte" where
  "byte_of_char c = of_nat (charCodeAt c)"

subsection \<open>Hexadecimal digits\<close>

text \<open>The digit of a value below 16, as \<^verbatim>\<open>Number.prototype.toString(16)\<close> writes it.\<close>

definition hexdigit :: "nat \<Rightarrow> char" where
  "hexdigit n = (if n < 10 then char_of (48 + n) else char_of (87 + n))"

text \<open>\<^verbatim>\<open>n.toString(16)\<close> for a code unit below 256: one or two lower-case digits.\<close>

definition toString16 :: "nat \<Rightarrow> string" where
  "toString16 n = (if n < 16 then [hexdigit n] else [hexdigit (n div 16), hexdigit (n mod 16)])"

text \<open>\<^verbatim>\<open>toUpperCase\<close> on text whose letters are ASCII.\<close>

definition upper_char :: "char \<Rightarrow> char" where
  "upper_char c =
     (if 97 \<le> charCodeAt c \<and> charCodeAt c \<le> 122 then char_of (charCodeAt c - 32) else c)"

definition toUpperCase :: "string \<Rightarrow> string" where
  "toUpperCase s = map upper_char s"

text \<open>The value of a hexadecimal digit of either case, \<open>None\<close> for any other character.\<close>

definition hexval :: "char \<Rightarrow> nat option" where
  "hexval c =
     (let n = charCodeAt c in
      if 48 \<le> n \<and> n \<le> 57 then Some (n - 48)
      else if 97 \<le> n \<and> n \<le> 102 then Some (n - 87)
      else if 65 \<le> n \<and> n \<le> 70 then Some (n - 55)
      else None)"

text \<open>
  \<^verbatim>\<open>parseInt(s, 16)\<close>: leading white space, a sign and a \<^verbatim>\<open>0x\<close> prefix are skipped,
  then the longest run of hexadecimal digits is read; \<open>None\<close> is \<^verbatim>\<open>NaN\<close>.
\<close>

definition is_js_whitespace :: "char \<Rightarrow> bool" where
  "is_js_whitespace c = (charCodeAt c \<in> {9, 10, 11, 12, 13, 32, 160})"

fun hex_digits_value :: "nat \<Rightarrow> string \<Rightarrow> nat" where
  "hex_digits_value acc [] = acc"
| "hex_digits_value acc (c # cs) =
     (case hexval c of None \<Rightarrow> acc | Some d \<Rightarrow> hex_digits_value (16 * acc + d) cs)"

definition parseInt16 :: "string \<Rightarrow> int option" where
  "parseInt16 s =
     (let s1 = dropWhile is_js_whitespace s;
          negative = (s1 \<noteq> [] \<and> hd s1 = CHR ''-'');
          s2 = (if s1 \<noteq> [] \<and> (hd s1 = CHR ''-'' \<or> hd s1 = CHR ''+'') then tl s1 else s1);
          s3 = (if take 2 s2 = ''0x'' \<or> take 2 s2 = ''0X'' then drop 2 s2 else s2)
      in if s3 = [] \<or> hexval (hd s3) = None then None
         else Some ((if negative then - 1 else 1) * int (hex_digits_value 0 s3)))"

subsection \<open>Base64 as the platform provides it\<close>

text \<open>
  \<^verbatim>\<open>btoa\<close>, \<^verbatim>\<open>atob\<close> and \<^verbatim>\<open>Buffer\<close> belong to the platform, not to the
  repository. They are modelled from their specifications (RFC 4648 and the
  forgiving-base64 decoding of the HTML standard), so that the repository's functions
  can be evaluated on concrete text.
\<close>

text \<open>The character of a sextet in the alphabet \<^verbatim>\<open>A-Z a-z 0-9 + /\<close>.\<close>

definition b64char :: "nat \<Rightarrow> char" where
  "b64char n =
     (if n < 26 then char_of (65 + n)
      else if n < 52 then char_of (71 + n)
      else if n < 62 then char_of (n - 4)
      else if n = 62 then CHR ''+'' else CHR ''/'')"

definition b64val :: "char \<Rightarrow> nat option" where
  "b64val c =
     (let n = charCodeAt c in
      if 65 \<le> n \<and> n \<le> 90 then Some (n - 65)
      else if 97 \<le> n \<and> n \<le> 122 then Some (n - 71)
      else if 48 \<le> n \<and> n \<le> 57 then Some (n + 4)
      else if n = 43 then Some 62
      else if n = 47 then Some 63
      else None)"

fun b64enc :: "byte list \<Rightarrow> string" where
  "b64enc (a # b # c # rest) =
     [b64char (unat a div 4),
      b64char ((unat a mod 4) * 16 + unat b div 16),
      b64char ((unat b mod 16) * 4 + unat c div 64),
      b64char (unat c mod 64)] @ b64enc rest"
| "b64enc [a, b] =
     [b64char (unat a div 4),
      b64char ((unat a mod 4) * 16 + unat b div 16),
      b64char ((unat b mod 16) * 4),
      CHR ''='']"
| "b64enc [a] =
     [b64char (unat a div 4), b64char ((unat a mod 4) * 16), CHR ''='', CHR ''='']"
| "b64enc [] = []"

text \<open>Sextets back to bytes; the bits of an incomplete last group are dropped.\<close>

fun b64dec :: "nat list \<Rightarrow> byte list" where
  "b64dec (p # q # r # s # rest) =
     [of_nat (p * 4 + q div 16), of_nat ((q mod 16) * 16 + r div 4), of_nat ((r mod 4) * 64 + s)]
     @ b64dec rest"
| "b64dec [p, q, r] = [of_nat (p * 4 + q div 16), of_nat ((q mod 16) * 16 + r div 4)]"
| "b64dec [p, q] = [of_nat (p * 4 + q div 16)]"
| "b64dec _ = []"

text \<open>The sextets that \<open>b64enc\<close> writes for a byte list, before padding.\<close>

fun sextets :: "byte list \<Rightarrow> nat list" where
  "sextets (a # b # c # rest) =
     [unat a div 4,
      (unat a mod 4) * 16 + unat b div 16,
      (unat b mod 16) * 4 + unat c div 64,
      unat c mod 64] @ sextets rest"
| "sextets [a, b] =
     [unat a div 4, (unat a mod 4) * 16 + unat b div 16, (unat b mod 16) * 4]"
| "sextets [a] = [unat a div 4, (unat a mod 4) * 16]"
| "sextets [] = []"

definition btoa :: "string \<Rightarrow> string" where
  "btoa s = b64enc (map byte_of_char s)"

definition is_ascii_whitespace :: "char \<Rightarrow> bool" where
  "is_ascii_whitespace c = (charCodeAt c \<in> {9, 10, 12, 13, 32})"

definition strip_padding :: "string \<Rightarrow> string" where
  "strip_padding s =
     (if length s mod 4 = 0 \<and> s \<noteq> [] \<and> last s = CHR ''='' then
        (if butlast s \<noteq> [] \<and> last (butlast s) = CHR ''='' then butlast (butlast s)
         else butlast s)
      else s)"

text \<open>\<^verbatim>\<open>atob\<close>: \<open>None\<close> where the platform throws \<^verbatim>\<open>InvalidCharacterError\<close>.\<close>

definition atob :: "string \<Rightarrow> string option" where
  "atob s =
     (let s1 = filter (\<lambda>c. \<not> is_ascii_whitespace c) s;
          s2 = strip_padding s1
      in if length s2 mod 4 = 1 then None
         else if \<exists>c \<in> set s2. b64val c = None then None
         else Some (map fromCharCode (b64dec (List.map_filter b64val s2))))"

text \<open>
  \<^verbatim>\<open>Buffer.from(s, 'base64')\<close>: never throws on a string; it stops at the first
  \<^verbatim>\<open>=\<close>, skips characters outside the alphabet (which for \<^verbatim>\<open>Buffer\<close> also holds
  \<^verbatim>\<open>-\<close> and \<^verbatim>\<open>_\<close> for 62 and 63) and decodes what is left.
\<close>

definition Buffer_b64val :: "char \<Rightarrow> nat option" where
  "Buffer_b64val c =
     (if c = CHR ''-'' then Some 62 else if c = CHR ''_'' then Some 63 else b64val c)"

definition Buffer_from_base64 :: "string \<Rightarrow> byte list" where
  "Buffer_from_base64 s =
     b64dec (List.map_filter Buffer_b64val (takeWhile (\<lambda>c. c \<noteq> CHR ''='') s))"

text \<open>\<^verbatim>\<open>buf.toString('hex')\<close>: two lower-case digits for each byte.\<close>

definition Buffer_toString_hex :: "byte list \<Rightarrow> string" where
  "Buffer_toString_hex bs =
     concat (map (\<lambda>b. [hexdigit (unat b div 16), hexdigit (unat b mod 16)]) bs)"

text \<open>
  \<^verbatim>\<open>Buffer.from(s, 'hex')\<close> of the \<^verbatim>\<open>buffer\<close> package that the script imports: each
  pair of characters is read with \<^verbatim>\<open>parseInt(pair, 16)\<close> and stored as a byte
  (modulo 256); decoding stops at the first pair that reads as \<^verbatim>\<open>NaN\<close>, and a single
  last character is dropped.
\<close>

fun Buffer_from_hex :: "string \<Rightarrow> byte list" where
  "Buffer_from_hex (a # b # rest) =
     (case parseInt16 [a, b] of
        None \<Rightarrow> []
      | Some parsed \<Rightarrow> of_int parsed # Buffer_from_hex rest)"
| "Buffer_from_hex _ = []"

section \<open>Namespace codec of the monolithic script (index.js)\<close>

definition RESERVED_NAMESPACES :: "string list" where
  "RESERVED_NAMESPACES =
     [''0000000000000000000000000000000000000000000000000000000001'',
      ''0000000000000000000000000000000000000000000000000000000002'',
      ''0000000000000000000000000000000000000000000000000000000004'',
      ''00000000000000000000000000000000000000000000000000000000FF'',
      ''FFFFFFFFFFFFFFFFFFFFFFFFFFFFFFFFFFFFFFFFFFFFFFFFFFFFFFFFFFFE'',
      ''FFFFFFFFFFFFFFFFFFFFFFFFFFFFFFFFFFFFFFFFFFFFFFFFFFFFFFFFFFFFFFFF'']"

text \<open>
  \<^verbatim>\<open>base64ToHex\<close>: a 29-byte value is shown by its last 10 bytes only (the
  ``special case'' of the source), anything else in full.
\<close>

definition base64ToHex :: "string \<Rightarrow> string" where
  "base64ToHex base64 =
     (let bytes = Buffer_from_base64 base64 in
      if length bytes = 29 then Buffer_toString_hex (drop 19 bytes)
      else Buffer_toString_hex bytes)"

definition hexToBase64 :: "string \<Rightarrow> string" where
  "hexToBase64 hex = b64enc (Buffer_from_hex hex)"

text \<open>
  \<^verbatim>\<open>dst.set(src, offset)\<close> on typed arrays, for a source that fits (every call of the
  source does: the lengths are fixed by the code).
\<close>

definition typed_set :: "byte list \<Rightarrow> byte list \<Rightarrow> nat \<Rightarrow> byte list" where
  "typed_set dst src offset = take offset dst @ src @ drop (offset + length src) dst"



text \<open>\<^verbatim>\<open>String.prototype.includes\<close>: the pattern occurs as a contiguous part.\<close>

fun str_includes :: "string \<Rightarrow> string \<Rightarrow> bool" where
  "str_includes [] pat = (pat = [])"
| "str_includes (c # cs) pat = (take (length pat) (c # cs) = pat \<or> str_includes cs pat)"

definition isReservedNamespace :: "string \<Rightarrow> bool" where
  "isReservedNamespace base64Namespace =
     (let hex = Buffer_toString_hex (Buffer_from_base64 base64Namespace)
      in list_ex (\<lambda>reserved. str_includes hex reserved) RESERVED_NAMESPACES)"

text \<open>
  The result object \<^verbatim>\<open>{valid, error}\<close>: \<open>Valid\<close> is \<^verbatim>\<open>{valid: true}\<close>, and
  \<open>Invalid e\<close> is \<^verbatim>\<open>{valid: false, error: ...}\<close> with the rule that the message names.
\<close>

datatype ns_error =
    InvalidBase64
  | WrongLength nat
  | LeadingZeroBytes
  | UnsupportedVersion nat
  | ReservedNamespace

datatype validation = Valid | Invalid ns_error

definition validateNamespace :: "string \<Rightarrow> validation" where
  "validateNamespace base64Namespace =
     (let bytes = Buffer_from_base64 base64Namespace in
      if length bytes \<noteq> 29 then Invalid (WrongLength (length bytes))
      else
        (let version = hd bytes;
             reservedCheck =
               (if isReservedNamespace base64Namespace then Invalid ReservedNamespace
                else Valid)
         in if version = 0 then
              (if list_ex (\<lambda>i. bytes ! (i + 1) \<noteq> 0) [0 ..< 18] then Invalid LeadingZeroBytes
               else reservedCheck)
            else if version \<noteq> 255 then Invalid (UnsupportedVersion (unat version))
            else reservedCheck))"

text \<open>
  The step of \<^verbatim>\<open>retrieveBlob\<close> that rebuilds a namespace from its displayed form:
  version 0, 18 zero bytes and the decoded digits from offset 19. \<open>None\<close> is the
  \<^verbatim>\<open>RangeError\<close> of \<^verbatim>\<open>set\<close> when more than 10 bytes were decoded.
\<close>

definition retrieveBlob_namespace :: "string \<Rightarrow> string option" where
  "retrieveBlob_namespace namespaceHex =
     (let version = 0;
          namespaceArray = (replicate 29 0)[0 := version];
          hexBytes = Buffer_from_hex namespaceHex
      in if 19 + length hexBytes > 29 then None
         else Some (b64enc (typed_set namespaceArray hexBytes 19)))"

section \<open>Namespace codec of utils/common.js\<close>

definition common_RESERVED_NAMESPACES :: "string list" where
  "common_RESERVED_NAMESPACES =
     [''0000000000000000000000000000000000000000000000000000000001'',
      ''0000000000000000000000000000000000000000000000000000000002'',
      ''0000000000000000000000000000000000000000000000000000000004'',
      ''00000000000000000000000000000000000000000000000000000000FF'',
      ''FFFFFFFFFFFFFFFFFFFFFFFFFFFFFFFFFFFFFFFFFFFFFFFFFFFFFFFFFFFE'',
      ''FFFFFFFFFFFFFFFFFFFFFFFFFFFFFFFFFFFFFFFFFFFFFFFFFFFFFFFD'']"

text \<open>One byte of the loop in \<^verbatim>\<open>base64ToHex\<close>: \<^verbatim>\<open>toString(16)\<close>, padded to two digits.\<close>

definition hex_of_code :: "nat \<Rightarrow> string" where
  "hex_of_code n = (let hex = toString16 n in if length hex = 1 then CHR ''0'' # hex else hex)"

definition common_base64ToHex :: "string \<Rightarrow> string" where
  "common_base64ToHex base64 =
     (let cleanBase64 = filter (\<lambda>c. c \<noteq> CHR ''='') base64 in
      case atob cleanBase64 of
        None \<Rightarrow> []
      | Some binaryString \<Rightarrow>
          toUpperCase (concat (map (\<lambda>c. hex_of_code (charCodeAt c)) binaryString)))"

text \<open>\<^verbatim>\<open>String.fromCharCode\<close> on the result of \<^verbatim>\<open>parseInt\<close>: the code unit it yields.\<close>

definition code_unit_of :: "int option \<Rightarrow> nat" where
  "code_unit_of v = (case v of None \<Rightarrow> 0 | Some n \<Rightarrow> nat (n mod 65536))"

fun hex_pairs :: "string \<Rightarrow> nat list" where
  "hex_pairs (a # b # rest) = code_unit_of (parseInt16 [a, b]) # hex_pairs rest"
| "hex_pairs [a] = [code_unit_of (parseInt16 [a])]"
| "hex_pairs [] = []"

text \<open>
  \<^verbatim>\<open>hexToBase64\<close>; \<^verbatim>\<open>btoa\<close> throws on a code unit above 255 and the handler
  returns the empty string.
\<close>

definition common_hexToBase64 :: "string \<Rightarrow> string" where
  "common_hexToBase64 hex =
     (let hexString = (if take 2 hex = ''0x'' then drop 2 hex else hex);
          binaryString = hex_pairs hexString
      in if list_ex (\<lambda>u. u > 255) binaryString then []
         else btoa (map char_of binaryString))"

definition common_isReservedNamespace :: "string \<Rightarrow> bool" where
  "common_isReservedNamespace base64Namespace =
     (let hexNamespace = common_base64ToHex base64Namespace
      in list_ex (\<lambda>reservedNamespace. hexNamespace = reservedNamespace)
           common_RESERVED_NAMESPACES)"

definition isValidBase64 :: "string \<Rightarrow> bool" where
  "isValidBase64 str = (case atob str of None \<Rightarrow> False | Some s \<Rightarrow> btoa s = str)"

text \<open>
  \<^verbatim>\<open>parseInt(hexNamespace.substring(0, 2), 16)\<close> on the upper-case digits produced by
  \<open>common_base64ToHex\<close> is never \<^verbatim>\<open>NaN\<close>; the model reads \<^verbatim>\<open>NaN\<close> as a version that is
  neither 0 nor 255, as the comparison of the source does.
\<close>

definition common_validateNamespace :: "string \<Rightarrow> validation" where
  "common_validateNamespace base64Namespace =
     (if \<not> isValidBase64 base64Namespace then Invalid InvalidBase64
      else
        (let hexNamespace = common_base64ToHex base64Namespace in
         if length hexNamespace \<noteq> 58 then Invalid (WrongLength (length hexNamespace div 2))
         else
           (case parseInt16 (take 2 hexNamespace) of
              None \<Rightarrow> Invalid (UnsupportedVersion 0)
            | Some version \<Rightarrow>
                if version \<noteq> 0 \<and> version \<noteq> 255 then Invalid (UnsupportedVersion (nat version))
                else if common_isReservedNamespace base64Namespace
                then Invalid ReservedNamespace
                else Valid)))"

record namespace_info =
  ns_base64 :: string
  ns_hex :: string
  ns_plaintext :: string

definition common_createValidNamespace_bytes :: "(string \<Rightarrow> byte list) \<Rightarrow> string \<Rightarrow> byte list" where
  "common_createValidNamespace_bytes encode input =
     (let inputBytes = encode input;
          namespaceBytes = (replicate 29 0)[0 := 0];
          bytesToCopy = min (length inputBytes) 28
      in fold (\<lambda>i arr. arr[i + 1 := inputBytes ! i]) [0 ..< bytesToCopy] namespaceBytes)"

definition common_createValidNamespace :: "(string \<Rightarrow> byte list) \<Rightarrow> string \<Rightarrow> namespace_info" where
  "common_createValidNamespace encode input =
     (let namespaceBytes = common_createValidNamespace_bytes encode input
      in \<lparr>ns_base64 = btoa (map fromCharCode namespaceBytes),
          ns_hex = toUpperCase
            (concat (map (\<lambda>b. [hexdigit (unat b div 16), hexdigit (unat b mod 16)]) namespaceBytes)),
          ns_plaintext = input\<rparr>)"

text \<open>Namespaces used to evaluate the codecs.\<close>

definition reserved_padding_namespace :: string where
  "reserved_padding_namespace = ''AAAAAAAAAAAAAAAAAAAAAAAAAAAAAAAAAAAAAP8=''"

definition nonzero_prefix_namespace :: string where
  "nonzero_prefix_namespace = ''AGFiAAAAAAAAAAAAAAAAAAAAAAAAAAAAAAAAAAA=''"

definition user_namespace :: string where
  "user_namespace = ''AAAAAAAAAAAAAAAAAAAAAAAAAAAAAAAAAAAAYWI=''"

section \<open>JSON values and schema validation (components/database/database.js)\<close>

text \<open>
  Values produced by \<^verbatim>\<open>JSON.parse\<close>. Only the kind of a number matters to the code
  modelled here, so numbers are integers.
\<close>

datatype json =
    JNull
  | JBool bool
  | JNumber int
  | JString string
  | JArray "json list"
  | JObject "(string \<times> json) list"

text \<open>
  What \<^verbatim>\<open>data[field]\<close> yields on an object made by \<^verbatim>\<open>JSON.parse\<close>: an own property,
  or else a member inherited from \<^verbatim>\<open>Object.prototype\<close>, or else \<^verbatim>\<open>undefined\<close>.
\<close>

datatype js_value = Undefined | Value json | InheritedFunction | InheritedObject

definition object_prototype_functions :: "string list" where
  "object_prototype_functions =
     [''constructor'', ''hasOwnProperty'', ''isPrototypeOf'', ''propertyIsEnumerable'',
      ''toLocaleString'', ''toString'', ''valueOf'', ''__defineGetter__'',
      ''__defineSetter__'', ''__lookupGetter__'', ''__lookupSetter__'']"

definition inherited_name :: "string \<Rightarrow> bool" where
  "inherited_name field = (field = ''__proto__'' \<or> field \<in> set object_prototype_functions)"

definition get_property :: "(string \<times> json) list \<Rightarrow> string \<Rightarrow> js_value" where
  "get_property obj field =
     (case map_of obj field of
        Some v \<Rightarrow> Value v
      | None \<Rightarrow>
          if field = ''__proto__'' then InheritedObject
          else if field \<in> set object_prototype_functions then InheritedFunction
          else Undefined)"

fun typeof :: "js_value \<Rightarrow> string" where
  "typeof Undefined = ''undefined''"
| "typeof (Value JNull) = ''object''"
| "typeof (Value (JBool _)) = ''boolean''"
| "typeof (Value (JNumber _)) = ''number''"
| "typeof (Value (JString _)) = ''string''"
| "typeof (Value (JArray _)) = ''object''"
| "typeof (Value (JObject _)) = ''object''"
| "typeof InheritedFunction = ''function''"
| "typeof InheritedObject = ''object''"

fun isArray :: "js_value \<Rightarrow> bool" where
  "isArray (Value (JArray _)) = True"
| "isArray _ = False"

text \<open>
  A schema is an object whose \<^verbatim>\<open>fields\<close> property maps each field name to
  \<^verbatim>\<open>{type, required}\<close>; the list keeps the order in which \<^verbatim>\<open>for ... in\<close> visits the
  names. A missing \<^verbatim>\<open>type\<close> is \<open>None\<close>.
\<close>

record field_schema =
  fs_type :: "string option"
  fs_required :: bool

record schema =
  schema_fields :: "(string \<times> field_schema) list"

record validation_result =
  isValid :: bool
  error :: "string option"

definition invalid_field :: "string \<Rightarrow> string \<Rightarrow> validation_result" where
  "invalid_field field what =
     \<lparr>isValid = False, error = Some (''Field '' @ [CHR 0x27] @ field @ [CHR 0x27] @ what)\<rparr>"

fun validate_fields ::
  "(string \<times> json) list \<Rightarrow> (string \<times> field_schema) list \<Rightarrow> validation_result" where
  "validate_fields data [] = \<lparr>isValid = True, error = None\<rparr>"
| "validate_fields data ((field, fieldSchema) # rest) =
     (let v = get_property data field in
      if fs_required fieldSchema \<and> (v = Undefined \<or> v = Value JNull)
      then invalid_field field '' is required''
      else if v = Undefined then validate_fields data rest
      else
        (case fs_type fieldSchema of
           None \<Rightarrow> validate_fields data rest
         | Some declared \<Rightarrow>
             if declared = [] then validate_fields data rest
             else
               (let valueType = typeof v in
                if declared = ''string'' \<and> valueType \<noteq> ''string''
                then invalid_field field '' must be a string''
                else if declared = ''number'' \<and> valueType \<noteq> ''number''
                then invalid_field field '' must be a number''
                else if declared = ''boolean'' \<and> valueType \<noteq> ''boolean''
                then invalid_field field '' must be a boolean''
                else if declared = ''object'' \<and> (valueType \<noteq> ''object'' \<or> isArray v)
                then invalid_field field '' must be an object''
                else if declared = ''array'' \<and> \<not> isArray v
                then invalid_field field '' must be an array''
                else validate_fields data rest)))"

definition validateDataAgainstSchema :: "(string \<times> json) list \<Rightarrow> schema \<Rightarrow> validation_result" where
  "validateDataAgainstSchema data sch = validate_fields data (schema_fields sch)"

text \<open>The schema and records used to evaluate validation.\<close>

definition name_schema :: schema where
  "name_schema = \<lparr>schema_fields = [(''name'', \<lparr>fs_type = Some ''string'', fs_required = True\<rparr>),
                            (''tags'', \<lparr>fs_type = Some ''array'', fs_required = False\<rparr>)]\<rparr>"

definition optional_toString_schema :: schema where
  "optional_toString_schema =
     \<lparr>schema_fields = [(''toString'', \<lparr>fs_type = Some ''string'', fs_required = False\<rparr>)]\<rparr>"

section \<open>Decimal numbers as text\<close>

text \<open>
  The decimal digits of a natural number, and \<^verbatim>\<open>parseInt(s, 10)\<close>: leading white
  space and a sign are skipped and the longest run of digits is read; \<open>None\<close> is
  \<^verbatim>\<open>NaN\<close>.
\<close>

function show_nat :: "nat \<Rightarrow> string" where
  "show_nat n = (if n < 10 then [char_of (48 + n)] else show_nat (n div 10) @ [char_of (48 + n mod 10)])"
  by pat_completeness auto
termination
  by (relation "measure id") auto

declare show_nat.simps [simp del]

definition decval :: "char \<Rightarrow> nat option" where
  "decval c =
     (let n = charCodeAt c in if 48 \<le> n \<and> n \<le> 57 then Some (n - 48) else None)"

fun dec_digits_value :: "nat \<Rightarrow> string \<Rightarrow> nat" where
  "dec_digits_value acc [] = acc"
| "dec_digits_value acc (c # cs) =
     (case decval c of None \<Rightarrow> acc | Some d \<Rightarrow> dec_digits_value (10 * acc + d) cs)"

definition parseInt10 :: "string \<Rightarrow> int option" where
  "parseInt10 s =
     (let s1 = dropWhile is_js_whitespace s;
          negative = (s1 \<noteq> [] \<and> hd s1 = CHR ''-'');
          s2 = (if s1 \<noteq> [] \<and> (hd s1 = CHR ''-'' \<or> hd s1 = CHR ''+'') then tl s1 else s1)
      in if s2 = [] \<or> decval (hd s2) = None then None
         else Some ((if negative then - 1 else 1) * int (dec_digits_value 0 s2)))"

section \<open>Local storage and the record store\<close>

text \<open>
  \<^verbatim>\<open>localStorage\<close> maps keys to strings: \<^verbatim>\<open>getItem\<close> is application,
  \<^verbatim>\<open>setItem\<close> is map update and \<^verbatim>\<open>removeItem\<close> resets the key. A stored value
  is falsy in the source when it is missing or the empty string.
\<close>

type_synonym storage = "string \<rightharpoonup> string"

definition removeItem :: "string \<Rightarrow> storage \<Rightarrow> storage" where
  "removeItem k ls = ls(k := None)"

definition falsy :: "string option \<Rightarrow> bool" where
  "falsy v = (v = None \<or> v = Some [])"

subsection \<open>components/database/database.js\<close>

definition database_DB_NAMESPACE_KEY :: string where
  "database_DB_NAMESPACE_KEY = ''celestia_db_namespace''"

definition database_DB_TOKEN_KEY :: string where
  "database_DB_TOKEN_KEY = ''celestia_db_token''"

definition database_DB_SCHEMA_KEY :: string where
  "database_DB_SCHEMA_KEY = ''celestia_db_schema''"

text \<open>\<open>array\<close> is the content \<^verbatim>\<open>crypto.getRandomValues\<close> gave the 32-byte array.\<close>

definition database_generateAuthToken :: "byte list \<Rightarrow> string" where
  "database_generateAuthToken array = concat (map (\<lambda>byte. hex_of_code (unat byte)) array)"

definition database_getOrCreateAuthToken :: "byte list \<Rightarrow> storage \<Rightarrow> string \<times> storage" where
  "database_getOrCreateAuthToken array ls =
     (let token = ls database_DB_TOKEN_KEY in
      if falsy token then
        (let fresh = database_generateAuthToken array
         in (fresh, ls(database_DB_TOKEN_KEY \<mapsto> fresh)))
      else (the token, ls))"

text \<open>The token is left in place: its removal is commented out in the source.\<close>

definition database_clearDatabaseCache :: "storage \<Rightarrow> storage" where
  "database_clearDatabaseCache ls =
     removeItem database_DB_SCHEMA_KEY (removeItem database_DB_NAMESPACE_KEY ls)"

subsection \<open>The monolithic script (index.js)\<close>

definition DB_NAMESPACE_KEY :: string where
  "DB_NAMESPACE_KEY = ''celestia_db_namespace''"

definition DB_SCHEMA_HEIGHT_KEY :: string where
  "DB_SCHEMA_HEIGHT_KEY = ''celestia_db_schema_height''"

definition DB_RECORDS_KEY :: string where
  "DB_RECORDS_KEY = ''celestia_db_records''"

definition DB_AUTH_TOKEN_KEY :: string where
  "DB_AUTH_TOKEN_KEY = ''celestia_db_auth_token''"

definition generateAuthToken :: "byte list \<Rightarrow> string" where
  "generateAuthToken randomBuffer = btoa (map fromCharCode randomBuffer)"

definition getOrCreateAuthToken :: "byte list \<Rightarrow> storage \<Rightarrow> string \<times> storage" where
  "getOrCreateAuthToken randomBuffer ls =
     (let token = ls DB_AUTH_TOKEN_KEY in
      if falsy token then
        (let fresh = generateAuthToken randomBuffer
         in (fresh, ls(DB_AUTH_TOKEN_KEY \<mapsto> fresh)))
      else (the token, ls))"

definition clearDatabaseCache :: "storage \<Rightarrow> storage" where
  "clearDatabaseCache ls =
     removeItem DB_AUTH_TOKEN_KEY
       (removeItem DB_RECORDS_KEY
         (removeItem DB_SCHEMA_HEIGHT_KEY
           (removeItem DB_NAMESPACE_KEY ls)))"

text \<open>
  Everything the record store obtains from outside the program during one operation:
  the platform's text codec, digest and AES-GCM, its JSON functions, the clock, the
  random bytes it hands out, its text for numbers that are not safe integers, and the
  node's answers. A \<open>None\<close> result stands for a thrown exception (for
  \<open>blob_GetAll\<close>: no usable blob came back).
\<close>

record record_info =
  ri_height :: nat
  ri_timestamp :: string

record blob =
  blob_data :: "string option"

record env =
  text_encode :: "string \<Rightarrow> byte list"
  text_decode :: "byte list \<Rightarrow> string"
  sha256 :: "byte list \<Rightarrow> byte list"
  aes_gcm_encrypt :: "byte list \<Rightarrow> byte list \<Rightarrow> byte list \<Rightarrow> byte list option"
  aes_gcm_decrypt :: "byte list \<Rightarrow> byte list \<Rightarrow> byte list \<Rightarrow> byte list option"
  json_parse :: "string \<Rightarrow> json option"
  json_stringify :: "json \<Rightarrow> string"
  parse_records :: "string \<Rightarrow> record_info list option"
  stringify_records :: "record_info list \<Rightarrow> string"
  now_iso :: string
  random_token :: "byte list"
  random_iv :: "byte list"
  large_number_text :: "nat \<Rightarrow> string"
  blob_Submit :: "string \<Rightarrow> string \<Rightarrow> string + nat"
  blob_GetAll :: "nat \<Rightarrow> string \<Rightarrow> blob option"

text \<open>
  \<^verbatim>\<open>String(n)\<close> for a height \<open>n\<close>, a number that is a non-negative integer: its
  decimal digits when \<open>n\<close> is a safe integer (below \<^verbatim>\<open>2 ** 53\<close>). From there on the
  platform writes rounded digits, and exponent notation from \<^verbatim>\<open>1e21\<close>; that text is
  taken from the environment.
\<close>

definition String_number :: "env \<Rightarrow> nat \<Rightarrow> string" where
  "String_number e n =
     (if int n < 9007199254740992 then show_nat n else large_number_text e n)"

definition encodeToBase64 :: "string \<Rightarrow> string" where
  "encodeToBase64 text = btoa text"

definition decodeFromBase64 :: "string \<Rightarrow> string" where
  "decodeFromBase64 base64 = (case atob base64 of None \<Rightarrow> [] | Some text \<Rightarrow> text)"

definition encryptData :: "env \<Rightarrow> string \<Rightarrow> string \<Rightarrow> string option" where
  "encryptData e plain token =
     (let key = sha256 e (text_encode e token);
          iv = random_iv e
      in case aes_gcm_encrypt e key iv (text_encode e plain) of
           None \<Rightarrow> None
         | Some encryptedBuffer \<Rightarrow> Some (btoa (map fromCharCode (iv @ encryptedBuffer))))"

definition decryptData :: "env \<Rightarrow> string \<Rightarrow> string \<Rightarrow> string option" where
  "decryptData e encryptedBase64 token =
     (case atob encryptedBase64 of
        None \<Rightarrow> None
      | Some encryptedString \<Rightarrow>
          (let encryptedArray = map byte_of_char encryptedString;
               iv = take 12 encryptedArray;
               encryptedData = drop 12 encryptedArray;
               key = sha256 e (text_encode e token)
           in case aes_gcm_decrypt e key iv encryptedData of
                None \<Rightarrow> None
              | Some decryptedBuffer \<Rightarrow> Some (text_decode e decryptedBuffer)))"

text \<open>
  The text of the \<^verbatim>\<open>error\<close> member that \<^verbatim>\<open>validateNamespace\<close> of the monolithic
  script returns with \<^verbatim>\<open>valid: false\<close>. \<open>InvalidBase64\<close> is the result of its
  exception handler.
\<close>

fun validation_error_text :: "ns_error \<Rightarrow> string" where
  "validation_error_text (WrongLength n) =
     ''Namespace must be exactly 29 bytes (got '' @ show_nat n @ '')''"
| "validation_error_text LeadingZeroBytes =
     ''Version 0 namespace must have 18 leading zero bytes in the ID''"
| "validation_error_text (UnsupportedVersion v) =
     ''Only namespace versions 0 and 255 are supported''"
| "validation_error_text ReservedNamespace =
     ''This is a reserved namespace and cannot be used for user data''"
| "validation_error_text InvalidBase64 = ''Invalid namespace format''"

text \<open>
  \<^verbatim>\<open>submitBlob\<close>: the local checks, then the request. \<^verbatim>\<open>retrieveBlob\<close>: the
  height is read with \<^verbatim>\<open>parseInt\<close> and must be positive, the namespace is rebuilt
  from its displayed form, then the node is asked; every failure is \<^verbatim>\<open>null\<close>.
\<close>

definition submitBlob :: "env \<Rightarrow> string \<Rightarrow> string \<Rightarrow> string + nat" where
  "submitBlob e namespace payload =
     (if \<not> isValidBase64 namespace
      then Inl ''Invalid namespace format. Must be base64 encoded.''
      else
        (case validateNamespace namespace of
           Invalid err \<Rightarrow> Inl (''Invalid namespace: '' @ validation_error_text err)
         | Valid \<Rightarrow>
             if \<not> isValidBase64 payload
             then Inl ''Invalid data format. Must be base64 encoded.''
             else blob_Submit e namespace payload))"

definition retrieveBlob :: "env \<Rightarrow> string \<Rightarrow> string \<Rightarrow> blob option" where
  "retrieveBlob e h namespaceHex =
     (case parseInt10 h of
        None \<Rightarrow> None
      | Some heightValue \<Rightarrow>
          if heightValue \<le> 0 then None
          else
            (case retrieveBlob_namespace namespaceHex of
               None \<Rightarrow> None
             | Some namespaceBase64 \<Rightarrow> blob_GetAll e (nat heightValue) namespaceBase64))"

text \<open>
  \<^verbatim>\<open>JSON.parse(localStorage.getItem(DB_RECORDS_KEY) || '[]')\<close>: the empty list for a
  missing value and for the text \<^verbatim>\<open>[]\<close>, which is what initialisation stores;
  \<open>None\<close> when the stored text does not parse.
\<close>

definition read_recordsList :: "env \<Rightarrow> storage \<Rightarrow> record_info list option" where
  "read_recordsList e ls =
     (if falsy (ls DB_RECORDS_KEY) \<or> ls DB_RECORDS_KEY = Some ''[]'' then Some []
      else parse_records e (the (ls DB_RECORDS_KEY)))"

definition initializeDatabase ::
  "env \<Rightarrow> string \<Rightarrow> string \<Rightarrow> storage \<Rightarrow> (string + nat) \<times> storage" where
  "initializeDatabase e namespace schemaText ls =
     (if namespace = [] then (Inl ''Database namespace is required'', ls)
      else if schemaText = [] then (Inl ''Database schema is required'', ls)
      else
        (case json_parse e schemaText of
           None \<Rightarrow> (Inl ''Invalid schema format. Please provide valid JSON.'', ls)
         | Some schemaObj \<Rightarrow>
             (let dbSchema = JObject [(''schema'', schemaObj),
                                      (''createdAt'', JString (now_iso e)),
                                      (''version'', JString ''1.0'')];
                  (token, ls1) = getOrCreateAuthToken (random_token e) ls
              in case encryptData e (json_stringify e dbSchema) token of
                   None \<Rightarrow> (Inl ''encryption failed'', ls1)
                 | Some encryptedSchema \<Rightarrow>
                     (case submitBlob e namespace (encodeToBase64 encryptedSchema) of
                        Inl err \<Rightarrow> (Inl err, ls1)
                      | Inr h \<Rightarrow>
                          (Inr h,
                           ls1(DB_NAMESPACE_KEY \<mapsto> namespace,
                               DB_SCHEMA_HEIGHT_KEY \<mapsto> String_number e h,
                               DB_RECORDS_KEY \<mapsto> ''[]''))))))"

definition addDatabaseRecord ::
  "env \<Rightarrow> string \<Rightarrow> storage \<Rightarrow> (string + record_info) \<times> storage" where
  "addDatabaseRecord e dataText ls =
     (if falsy (ls DB_NAMESPACE_KEY) \<or> falsy (ls DB_SCHEMA_HEIGHT_KEY)
      then (Inl ''Database not initialized. Please initialize the database first.'', ls)
      else
        (case json_parse e dataText of
           None \<Rightarrow> (Inl ''Invalid data format. Please provide valid JSON.'', ls)
         | Some dataObj \<Rightarrow>
             (let entry = JObject [(''data'', dataObj), (''createdAt'', JString (now_iso e))];
                  (token, ls1) = getOrCreateAuthToken (random_token e) ls
              in case encryptData e (json_stringify e entry) token of
                   None \<Rightarrow> (Inl ''encryption failed'', ls1)
                 | Some encryptedRecord \<Rightarrow>
                     (case submitBlob e (the (ls DB_NAMESPACE_KEY)) (encodeToBase64 encryptedRecord) of
                        Inl err \<Rightarrow> (Inl err, ls1)
                      | Inr h \<Rightarrow>
                          (case read_recordsList e ls1 of
                             None \<Rightarrow> (Inl ''stored records list does not parse'', ls1)
                           | Some recordsList \<Rightarrow>
                               (let info = \<lparr>ri_height = h, ri_timestamp = now_iso e\<rparr>
                                in (Inr info,
                                    ls1(DB_RECORDS_KEY \<mapsto>
                                          stringify_records e (recordsList @ [info])))))))))"

definition retrieveDatabaseSchema :: "env \<Rightarrow> storage \<Rightarrow> (string + json) \<times> storage" where
  "retrieveDatabaseSchema e ls =
     (if falsy (ls DB_NAMESPACE_KEY) \<or> falsy (ls DB_SCHEMA_HEIGHT_KEY)
      then (Inl ''Database not initialized'', ls)
      else
        (let (token, ls1) = getOrCreateAuthToken (random_token e) ls;
             namespaceHex = base64ToHex (the (ls DB_NAMESPACE_KEY))
         in case retrieveBlob e (the (ls DB_SCHEMA_HEIGHT_KEY)) namespaceHex of
              None \<Rightarrow> (Inl ''Failed to retrieve database schema'', ls1)
            | Some schemaBlob \<Rightarrow>
                if falsy (blob_data schemaBlob)
                then (Inl ''Failed to retrieve database schema'', ls1)
                else
                  (case decryptData e (decodeFromBase64 (the (blob_data schemaBlob))) token of
                     None \<Rightarrow>
                       (Inl ''Failed to decrypt schema. The authentication token may have changed.'',
                        ls1)
                   | Some schemaJson \<Rightarrow>
                       (case json_parse e schemaJson of
                          None \<Rightarrow>
                            (Inl ''Failed to decrypt schema. The authentication token may have changed.'',
                             ls1)
                        | Some parsed \<Rightarrow> (Inr parsed, ls1)))))"

text \<open>
  One pass of the loop of \<^verbatim>\<open>retrieveDatabaseRecords\<close> per index entry: an entry whose
  blob is missing, does not decrypt or does not parse adds nothing, and the loop goes on.
  A listed record is the parsed object together with the height of its index entry.
\<close>

record listed_record =
  lr_record :: json
  lr_height :: nat

fun collect_records :: "env \<Rightarrow> string \<Rightarrow> string \<Rightarrow> record_info list \<Rightarrow> listed_record list" where
  "collect_records e token namespaceHex [] = []"
| "collect_records e token namespaceHex (recordInfo # rest) =
     (case retrieveBlob e (String_number e (ri_height recordInfo)) namespaceHex of
        None \<Rightarrow> collect_records e token namespaceHex rest
      | Some recordBlob \<Rightarrow>
          if falsy (blob_data recordBlob) then collect_records e token namespaceHex rest
          else
            (case decryptData e (decodeFromBase64 (the (blob_data recordBlob))) token of
               None \<Rightarrow> collect_records e token namespaceHex rest
             | Some recordJson \<Rightarrow>
                 (case json_parse e recordJson of
                    None \<Rightarrow> collect_records e token namespaceHex rest
                  | Some parsed \<Rightarrow>
                      \<lparr>lr_record = parsed, lr_height = ri_height recordInfo\<rparr>
                      # collect_records e token namespaceHex rest)))"

definition retrieveDatabaseRecords ::
  "env \<Rightarrow> storage \<Rightarrow> (string + listed_record list) \<times> storage" where
  "retrieveDatabaseRecords e ls =
     (case read_recordsList e ls of
        None \<Rightarrow> (Inl ''stored records list does not parse'', ls)
      | Some recordsList \<Rightarrow>
          if falsy (ls DB_NAMESPACE_KEY) then (Inl ''Database not initialized'', ls)
          else if recordsList = [] then (Inr [], ls)
          else
            (let (token, ls1) = getOrCreateAuthToken (random_token e) ls;
                 namespaceHex = base64ToHex (the (ls DB_NAMESPACE_KEY))
             in (Inr (collect_records e token namespaceHex recordsList), ls1)))"

text \<open>
  What listing is to do with one index entry, stated apart from the loop and for the
  entry on its own: fetch the blob at the height of the entry, decode and decrypt its
  data under the token, parse the plaintext. \<open>fetch_entry\<close> is \<open>None\<close> when no blob
  comes back or the blob carries no data. \<open>entry_outcome\<close> is the record to list, the
  parsed object with the height of the entry, and \<open>None\<close> when the fetch fails, the
  data does not decrypt or the plaintext does not parse.
\<close>

definition fetch_entry :: "env \<Rightarrow> string \<Rightarrow> record_info \<Rightarrow> string option" where
  "fetch_entry e namespaceHex recordInfo =
     (case retrieveBlob e (String_number e (ri_height recordInfo)) namespaceHex of
        None \<Rightarrow> None
      | Some recordBlob \<Rightarrow>
          (case blob_data recordBlob of
             None \<Rightarrow> None
           | Some data \<Rightarrow> if data = [] then None else Some data))"

definition entry_outcome :: "env \<Rightarrow> string \<Rightarrow> string \<Rightarrow> record_info \<Rightarrow> listed_record option" where
  "entry_outcome e token namespaceHex recordInfo =
     (case fetch_entry e namespaceHex recordInfo of
        None \<Rightarrow> None
      | Some data \<Rightarrow>
          (case decryptData e (decodeFromBase64 data) token of
             None \<Rightarrow> None
           | Some recordJson \<Rightarrow>
               (case json_parse e recordJson of
                  None \<Rightarrow> None
                | Some parsed \<Rightarrow>
                    Some \<lparr>lr_record = parsed, lr_height = ri_height recordInfo\<rparr>)))"

subsection \<open>A stand-in platform for evaluating the record store\<close>

text \<open>
  The theorems below hold for every environment. To run the model on concrete input,
  \<open>toy_env\<close> supplies a stand-in: its cipher appends the key to the plaintext and
  checks it on decryption (so a wrong key is detected) and it parses the JSON text
  \<^verbatim>\<open>{}\<close> only. Its node holds, under the namespace \<open>toy_namespace\<close>, two records
  written under the token \<^verbatim>\<open>secret\<close> (heights 5 and 9), a record written under
  another token (height 6), a blob whose plaintext is not JSON (height 8) and a blob
  without data (height 4); the index also names height 7, where the node has nothing.
\<close>

definition toy_tokenize :: "string \<Rightarrow> byte list" where
  "toy_tokenize s = map byte_of_char s"

definition toy_encrypt :: "byte list \<Rightarrow> byte list \<Rightarrow> byte list \<Rightarrow> byte list option" where
  "toy_encrypt key iv plain = Some (plain @ key)"

definition toy_decrypt :: "byte list \<Rightarrow> byte list \<Rightarrow> byte list \<Rightarrow> byte list option" where
  "toy_decrypt key iv cipher =
     (if length key \<le> length cipher \<and> drop (length cipher - length key) cipher = key
      then Some (take (length cipher - length key) cipher) else None)"

definition toy_index :: "record_info list" where
  "toy_index = [\<lparr>ri_height = 7, ri_timestamp = ''2025-01-01T00:00:00.000Z''\<rparr>,
                \<lparr>ri_height = 5, ri_timestamp = ''2025-01-02T00:00:00.000Z''\<rparr>,
                \<lparr>ri_height = 4, ri_timestamp = ''2025-01-03T00:00:00.000Z''\<rparr>,
                \<lparr>ri_height = 6, ri_timestamp = ''2025-01-04T00:00:00.000Z''\<rparr>,
                \<lparr>ri_height = 8, ri_timestamp = ''2025-01-05T00:00:00.000Z''\<rparr>,
                \<lparr>ri_height = 9, ri_timestamp = ''2025-01-06T00:00:00.000Z''\<rparr>]"

definition toy_iv :: "byte list" where
  "toy_iv = [1, 2, 3, 4, 5, 6, 7, 8, 9, 10, 11, 12]"

definition toy_blob :: "string \<Rightarrow> string \<Rightarrow> string" where
  "toy_blob plain token =
     btoa (btoa (map fromCharCode (toy_iv @ toy_tokenize plain @ toy_tokenize token)))"

definition toy_namespace :: string where
  "toy_namespace = ''AAAAAAAAAAAAAAAAAAAAAAAAAAAAAAAAAAAAYWI=''"

definition toy_node :: "nat \<Rightarrow> string \<Rightarrow> blob option" where
  "toy_node h namespace =
     (if namespace \<noteq> toy_namespace then None
      else if h = 5 \<or> h = 9 then Some \<lparr>blob_data = Some (toy_blob ''{}'' ''secret'')\<rparr>
      else if h = 6 then Some \<lparr>blob_data = Some (toy_blob ''{}'' ''other'')\<rparr>
      else if h = 8 then Some \<lparr>blob_data = Some (toy_blob ''oops'' ''secret'')\<rparr>
      else if h = 4 then Some \<lparr>blob_data = None\<rparr>
      else None)"

definition toy_env :: env where
  "toy_env =
     \<lparr>text_encode = toy_tokenize,
      text_decode = map fromCharCode,
      sha256 = (\<lambda>bs. bs),
      aes_gcm_encrypt = toy_encrypt,
      aes_gcm_decrypt = toy_decrypt,
      json_parse = (\<lambda>s. if s = ''{}'' then Some (JObject []) else None),
      json_stringify = (\<lambda>j. ''{}''),
      parse_records = (\<lambda>s. if s = ''index'' then Some toy_index else None),
      stringify_records = (\<lambda>xs. ''index''),
      now_iso = ''2025-01-07T00:00:00.000Z'',
      random_token = replicate 32 7,
      random_iv = toy_iv,
      large_number_text = (\<lambda>n. ''1e+21''),
      blob_Submit = (\<lambda>namespace payload. Inr 10),
      blob_GetAll = toy_node\<rparr>"

definition toy_store :: storage where
  "toy_store =
     [DB_NAMESPACE_KEY \<mapsto> toy_namespace, DB_SCHEMA_HEIGHT_KEY \<mapsto> ''3'',
      DB_RECORDS_KEY \<mapsto> ''index'', DB_AUTH_TOKEN_KEY \<mapsto> ''secret'']"

text \<open>The same store after the token was lost, and with an empty index.\<close>

definition toy_store_no_token :: storage where
  "toy_store_no_token = removeItem DB_AUTH_TOKEN_KEY toy_store"


text \<open>
  The rule of the specification for one declared field, in its own words: the field is
  required but absent or null, or it is present and its runtime type does not match the
  declared one (\<^verbatim>\<open>object\<close> excludes arrays, \<^verbatim>\<open>array\<close> requires an array).
\<close>

definition declared_types :: "string list" where
  "declared_types = [''string'', ''number'', ''boolean'', ''object'', ''array'']"

definition type_matches :: "string \<Rightarrow> json \<Rightarrow> bool" where
  "type_matches declared v =
     (if declared = ''object'' then typeof (Value v) = ''object'' \<and> \<not> isArray (Value v)
      else if declared = ''array'' then isArray (Value v)
      else typeof (Value v) = declared)"

definition field_violation :: "(string \<times> json) list \<Rightarrow> string \<times> field_schema \<Rightarrow> bool" where
  "field_violation data entry =
     (case entry of (field, fieldSchema) \<Rightarrow>
        (case map_of data field of
           None \<Rightarrow> fs_required fieldSchema
         | Some v \<Rightarrow>
             (fs_required fieldSchema \<and> v = JNull)
             \<or> (case fs_type fieldSchema of
                   None \<Rightarrow> False
                 | Some declared \<Rightarrow> \<not> type_matches declared v)))"

definition well_formed_field :: "string \<times> field_schema \<Rightarrow> bool" where
  "well_formed_field entry =
     (case entry of (field, fieldSchema) \<Rightarrow>
        \<not> inherited_name field
        \<and> (case fs_type fieldSchema of None \<Rightarrow> False | Some declared \<Rightarrow> declared \<in> set declared_types))"

subsection \<open>Record store of components/database/database.js: effects on local storage\<close>

text \<open>
  What one operation of database.js obtains from outside: the random bytes for a new
  token, \<^verbatim>\<open>encryptData\<close> and \<^verbatim>\<open>decryptData\<close> (AES-GCM under a PBKDF2 key; \<open>None\<close>
  when they throw), the JSON functions, and the answers to its two requests:
  \<^verbatim>\<open>blob.Submit\<close> (\<open>None\<close> when the request fails, else whether the response has a
  \<^verbatim>\<open>result\<close>) and \<^verbatim>\<open>blob.GetAll\<close> (\<open>None\<close> when the request fails or the response has
  no blobs, else the blobs), and \<^verbatim>\<open>Array.prototype.sort\<close> with the comparator on
  creation dates, whose \<^verbatim>\<open>Date\<close> parsing belongs to the platform.
\<close>

record database_blob =
  dbb_data :: string
  dbb_height :: "json option"

record database_record =
  dr_data :: json
  dr_created :: "json option"
  dr_height :: "json option"

record database_env =
  dbe_random_token :: "byte list"
  dbe_encryptData :: "json \<Rightarrow> string \<Rightarrow> string option"
  dbe_decryptData :: "string \<Rightarrow> string \<Rightarrow> json option"
  dbe_json_parse :: "string \<Rightarrow> json option"
  dbe_json_stringify :: "json \<Rightarrow> string"
  dbe_blob_Submit :: "string \<Rightarrow> bool option"
  dbe_blob_GetAll :: "string \<Rightarrow> database_blob list option"
  dbe_sort_newest_first :: "database_record list \<Rightarrow> database_record list"

text \<open>The test \<^verbatim>\<open>/^[0-9A-Fa-f]+$/\<close> that tells a hexadecimal namespace from a base64 one.\<close>

definition is_hex_text :: "string \<Rightarrow> bool" where
  "is_hex_text s = (s \<noteq> [] \<and> list_all (\<lambda>c. hexval c \<noteq> None) s)"

definition database_namespaceHex :: "string \<Rightarrow> string" where
  "database_namespaceHex namespace =
     (if is_hex_text namespace then toUpperCase namespace else common_base64ToHex namespace)"

text \<open>
  The four operations, with what they leave in local storage. The first component of
  the result tells whether the operation returned (\<open>True\<close>, or \<open>Some\<close> value) or
  threw.
\<close>

definition database_initializeDatabase ::
  "database_env \<Rightarrow> string \<Rightarrow> json \<Rightarrow> storage \<Rightarrow> bool \<times> storage" where
  "database_initializeDatabase e namespace sch ls =
     (let (token, ls1) = database_getOrCreateAuthToken (dbe_random_token e) ls in
      case dbe_encryptData e sch token of
        None \<Rightarrow> (False, ls1)
      | Some encryptedSchema \<Rightarrow>
          (case dbe_blob_Submit e (database_namespaceHex namespace) of
             Some True \<Rightarrow>
               (True, ls1(database_DB_NAMESPACE_KEY \<mapsto> namespace,
                          database_DB_SCHEMA_KEY \<mapsto> dbe_json_stringify e sch))
           | _ \<Rightarrow> (False, ls1)))"

definition database_addDatabaseRecord ::
  "database_env \<Rightarrow> json \<Rightarrow> storage \<Rightarrow> bool \<times> storage" where
  "database_addDatabaseRecord e entry ls =
     (let namespace = ls database_DB_NAMESPACE_KEY;
          (token, ls1) = database_getOrCreateAuthToken (dbe_random_token e) ls
      in if falsy namespace then (False, ls1)
         else
           (case dbe_encryptData e entry token of
              None \<Rightarrow> (False, ls1)
            | Some encryptedData \<Rightarrow>
                (case dbe_blob_Submit e (database_namespaceHex (the namespace)) of
                   Some True \<Rightarrow> (True, ls1)
                 | _ \<Rightarrow> (False, ls1))))"

text \<open>
  The metadata blob is the first one whose decoded JSON has the type
  \<^verbatim>\<open>celestia-db\<close>; \<open>find_metadata\<close> yields that JSON value. A \<^verbatim>\<open>schema\<close> or
  \<^verbatim>\<open>data\<close> member that is not a string is taken not to decrypt.
\<close>

fun json_member :: "json \<Rightarrow> string \<Rightarrow> json option" where
  "json_member (JObject members) name = map_of members name"
| "json_member _ name = None"

fun find_metadata :: "database_env \<Rightarrow> database_blob list \<Rightarrow> json option" where
  "find_metadata e [] = None"
| "find_metadata e (blob # rest) =
     (case atob (dbb_data blob) of
        None \<Rightarrow> find_metadata e rest
      | Some text \<Rightarrow>
          (case dbe_json_parse e text of
             None \<Rightarrow> find_metadata e rest
           | Some parsed \<Rightarrow>
               if json_member parsed ''type'' = Some (JString ''celestia-db'') then Some parsed
               else find_metadata e rest))"

definition database_retrieveDatabaseSchema ::
  "database_env \<Rightarrow> storage \<Rightarrow> json option \<times> storage" where
  "database_retrieveDatabaseSchema e ls =
     (if \<not> falsy (ls database_DB_SCHEMA_KEY)
      then (dbe_json_parse e (the (ls database_DB_SCHEMA_KEY)), ls)
      else if falsy (ls database_DB_NAMESPACE_KEY) then (None, ls)
      else
        (case dbe_blob_GetAll e (database_namespaceHex (the (ls database_DB_NAMESPACE_KEY))) of
           None \<Rightarrow> (None, ls)
         | Some blobs \<Rightarrow>
             if blobs = [] then (None, ls)
             else
               (case find_metadata e blobs of
                  None \<Rightarrow> (None, ls)
                | Some metadata \<Rightarrow>
                    (let (token, ls1) = database_getOrCreateAuthToken (dbe_random_token e) ls in
                     case json_member metadata ''schema'' of
                       Some (JString encrypted) \<Rightarrow>
                         (case dbe_decryptData e encrypted token of
                            None \<Rightarrow> (None, ls1)
                          | Some sch \<Rightarrow>
                              (Some sch,
                               ls1(database_DB_SCHEMA_KEY \<mapsto> dbe_json_stringify e sch)))
                     | _ \<Rightarrow> (None, ls1)))))"

text \<open>
  The loop of \<^verbatim>\<open>retrieveDatabaseRecords\<close>: a blob that does not decode, parse or
  decrypt is skipped, as is the metadata blob; the records that remain are sorted.
\<close>

fun database_collect_records ::
  "database_env \<Rightarrow> string \<Rightarrow> database_blob list \<Rightarrow> database_record list" where
  "database_collect_records e token [] = []"
| "database_collect_records e token (blob # rest) =
     (case atob (dbb_data blob) of
        None \<Rightarrow> database_collect_records e token rest
      | Some text \<Rightarrow>
          (case dbe_json_parse e text of
             None \<Rightarrow> database_collect_records e token rest
           | Some blobData \<Rightarrow>
               if json_member blobData ''type'' = Some (JString ''celestia-db'')
               then database_collect_records e token rest
               else if json_member blobData ''type'' = Some (JString ''celestia-db-record'')
               then
                 (case json_member blobData ''data'' of
                    Some (JString encrypted) \<Rightarrow>
                      (case dbe_decryptData e encrypted token of
                         None \<Rightarrow> database_collect_records e token rest
                       | Some decryptedData \<Rightarrow>
                           \<lparr>dr_data = decryptedData,
                            dr_created = json_member blobData ''created'',
                            dr_height = dbb_height blob\<rparr>
                           # database_collect_records e token rest)
                  | _ \<Rightarrow> database_collect_records e token rest)
               else database_collect_records e token rest))"

definition database_retrieveDatabaseRecords ::
  "database_env \<Rightarrow> storage \<Rightarrow> database_record list option \<times> storage" where
  "database_retrieveDatabaseRecords e ls =
     (if falsy (ls database_DB_NAMESPACE_KEY) then (None, ls)
      else
        (let (token, ls1) = database_getOrCreateAuthToken (dbe_random_token e) ls in
         case dbe_blob_GetAll e (database_namespaceHex (the (ls database_DB_NAMESPACE_KEY))) of
           None \<Rightarrow> (None, ls1)
         | Some blobs \<Rightarrow>
             (Some (dbe_sort_newest_first e (database_collect_records e token blobs)), ls1)))"

text \<open>A stand-in for database.js: nothing encrypts or decrypts, the node holds no blob.\<close>

definition toy_database_env :: database_env where
  "toy_database_env =
     \<lparr>dbe_random_token = replicate 32 7,
      dbe_encryptData = (\<lambda>j token. None),
      dbe_decryptData = (\<lambda>s token. None),
      dbe_json_parse = (\<lambda>s. None),
      dbe_json_stringify = (\<lambda>j. ''{}''),
      dbe_blob_Submit = (\<lambda>namespaceHex. None),
      dbe_blob_GetAll = (\<lambda>namespaceHex. Some []),
      dbe_sort_newest_first = (\<lambda>records. records)\<rparr>"

definition toy_database_store :: storage where
  "toy_database_store =
     [database_DB_NAMESPACE_KEY \<mapsto> toy_namespace, database_DB_TOKEN_KEY \<mapsto> ''0707'']"

chapter \<open>Properties\<close>

section \<open>Reconnect loop\<close>

lemma delays_append: "delays (xs @ ys) = delays xs @ delays ys"
  by (induction xs rule: delays.induct) simp_all

lemma step_other:
  assumes "e \<noteq> Open" "e \<noteq> Close"
  shows "reconnectAttempts (fst (step t e)) = reconnectAttempts t"
    and "delays (snd (step t e)) = []"
    and "isConnected (fst (step t e)) \<longrightarrow> isConnected t"
  using assms
  by (cases e; simp add: connectWebSocket_def ws_onerror_def ws_onmessage_def
        sendRpcRequest_def checkConnection_def issueRequest_def connectionTimeout_def
        Let_def split_def split: option.splits)+

lemma onclose_retry:
  assumes "reconnectAttempts t < maxReconnectAttempts"
  shows "reconnectAttempts (fst (ws_onclose t)) = reconnectAttempts t + 1"
    and "snd (ws_onclose t) = [SetTimeoutConnect (min (1000 * (reconnectAttempts t + 1)) 5000)]"
  using assms by (simp_all add: ws_onclose_def Let_def)

lemma onclose_terminal:
  assumes "\<not> reconnectAttempts t < maxReconnectAttempts"
  shows "reconnectAttempts (fst (ws_onclose t)) = reconnectAttempts t"
    and "snd (ws_onclose t) = [ShowDisconnected, UpdateAllNodeInfo]"
  using assms by (simp_all add: ws_onclose_def Let_def)

lemma onclose_disconnects: "\<not> isConnected (fst (ws_onclose t))"
  by (simp add: ws_onclose_def Let_def)

text \<open>
  Without a successful open in between, the delays scheduled by a run of events are
  exactly those of the attempts \<open>a + 1, a + 2, \<dots>\<close> up to the maximum, where \<open>a\<close> is
  the attempt counter at the start.
\<close>

lemma run_delays_exact:
  "Open \<notin> set evs \<Longrightarrow>
   delays (snd (run t evs)) =
     map (\<lambda>k. min (1000 * k) 5000)
       [reconnectAttempts t + 1 ..<
        reconnectAttempts t + 1 +
          min (count_list evs Close) (maxReconnectAttempts - reconnectAttempts t)]"
proof (induction evs arbitrary: t)
  case Nil
  then show ?case by simp
next
  case (Cons e evs)
  show ?case
  proof (cases "e = Close")
    case True
    show ?thesis
    proof (cases "reconnectAttempts t < maxReconnectAttempts")
      case lt: True
      note a = onclose_retry(1)[OF lt] and b = onclose_retry(2)[OF lt]
      have ih: "delays (snd (run (fst (ws_onclose t)) evs)) =
          map (\<lambda>k. min (1000 * k) 5000)
            [reconnectAttempts t + 2 ..<
             reconnectAttempts t + 2 +
               min (count_list evs Close) (maxReconnectAttempts - (reconnectAttempts t + 1))]"
        using Cons.IH[of "fst (ws_onclose t)"] Cons.prems a by simp
      have m: "min (count_list evs Close + 1) (maxReconnectAttempts - reconnectAttempts t) =
          Suc (min (count_list evs Close) (maxReconnectAttempts - (reconnectAttempts t + 1)))"
        using lt by simp
      have u: "[reconnectAttempts t + 1 ..< reconnectAttempts t + 1 + Suc n] =
          (reconnectAttempts t + 1) # [reconnectAttempts t + 2 ..< reconnectAttempts t + 2 + n]"
        for n
        by (simp add: upt_conv_Cons)
      have "delays (snd (run t (e # evs))) =
          min (1000 * (reconnectAttempts t + 1)) 5000 #
          delays (snd (run (fst (ws_onclose t)) evs))"
        using True by (simp add: split_def Let_def delays_append b)
      moreover have "count_list (e # evs) Close = count_list evs Close + 1"
        using True by simp
      ultimately show ?thesis
        by (simp only: ih m u list.map)
    next
      case ge: False
      note a = onclose_terminal(1)[OF ge] and b = onclose_terminal(2)[OF ge]
      show ?thesis
        using True ge Cons.IH[of "fst (ws_onclose t)"] Cons.prems
        by (simp add: split_def Let_def delays_append a b)
    qed
  next
    case False
    with Cons.prems have ne: "e \<noteq> Open" "e \<noteq> Close" by auto
    show ?thesis
      using step_other(1,2)[OF ne, of t] Cons.IH[of "fst (step t e)"] Cons.prems False
      by (simp add: split_def Let_def delays_append)
  qed
qed

lemma run_attempts:
  "Open \<notin> set evs \<Longrightarrow>
   reconnectAttempts (fst (run t evs)) =
     reconnectAttempts t + min (count_list evs Close) (maxReconnectAttempts - reconnectAttempts t)"
proof (induction evs arbitrary: t)
  case Nil
  then show ?case by simp
next
  case (Cons e evs)
  show ?case
  proof (cases "e = Close")
    case True
    show ?thesis
    proof (cases "reconnectAttempts t < maxReconnectAttempts")
      case lt: True
      show ?thesis
        using True lt Cons.IH[of "fst (ws_onclose t)"] Cons.prems onclose_retry(1)[OF lt]
        by (simp add: split_def Let_def)
    next
      case ge: False
      show ?thesis
        using True ge Cons.IH[of "fst (ws_onclose t)"] Cons.prems onclose_terminal(1)[OF ge]
        by (simp add: split_def Let_def)
    qed
  next
    case False
    with Cons.prems have ne: "e \<noteq> Open" "e \<noteq> Close" by auto
    show ?thesis
      using step_other(1)[OF ne, of t] Cons.IH[of "fst (step t e)"] Cons.prems False
      by (simp add: split_def Let_def)
  qed
qed

lemma run_terminal:
  "Open \<notin> set evs \<Longrightarrow>
   maxReconnectAttempts - reconnectAttempts t < count_list evs Close \<Longrightarrow>
   ShowDisconnected \<in> set (snd (run t evs))"
proof (induction evs arbitrary: t)
  case Nil
  then show ?case by simp
next
  case (Cons e evs)
  show ?case
  proof (cases "e = Close")
    case True
    show ?thesis
    proof (cases "reconnectAttempts t < maxReconnectAttempts")
      case lt: True
      have "maxReconnectAttempts - reconnectAttempts (fst (ws_onclose t)) < count_list evs Close"
        using Cons.prems(2) True lt onclose_retry(1)[OF lt] by simp
      then have "ShowDisconnected \<in> set (snd (run (fst (ws_onclose t)) evs))"
        using Cons.IH[of "fst (ws_onclose t)"] Cons.prems(1) by simp
      then show ?thesis
        using True by (simp add: split_def Let_def)
    next
      case ge: False
      show ?thesis
        using True onclose_terminal(2)[OF ge] by (simp add: split_def Let_def)
    qed
  next
    case False
    with Cons.prems have ne: "e \<noteq> Open" "e \<noteq> Close" by auto
    have "ShowDisconnected \<in> set (snd (run (fst (step t e)) evs))"
      using Cons.IH[of "fst (step t e)"] Cons.prems step_other(1)[OF ne, of t] False by simp
    then show ?thesis
      by (simp add: split_def Let_def)
  qed
qed

lemma run_stays_disconnected:
  "Open \<notin> set evs \<Longrightarrow> \<not> isConnected t \<Longrightarrow> \<not> isConnected (fst (run t evs))"
proof (induction evs arbitrary: t)
  case Nil
  then show ?case by simp
next
  case (Cons e evs)
  have "\<not> isConnected (fst (step t e))"
  proof (cases "e = Close")
    case True
    then show ?thesis by (simp add: onclose_disconnects)
  next
    case False
    with Cons.prems have ne: "e \<noteq> Open" "e \<noteq> Close" by auto
    show ?thesis using step_other(3)[OF ne, of t] Cons.prems(2) by blast
  qed
  then show ?case
    using Cons.IH[of "fst (step t e)"] Cons.prems(1) by (simp add: split_def Let_def)
qed

lemma sorted_capped_delays:
  "sorted (map (\<lambda>k::nat. min (1000 * k) 5000) [i ..< j])"
  unfolding sorted_map
  by (rule sorted_wrt_mono_rel[OF _ sorted_upt[of i j]]) (simp add: min_def)

lemma run_close_disconnects:
  "Open \<notin> set evs \<Longrightarrow> Close \<in> set evs \<Longrightarrow> \<not> isConnected (fst (run t evs))"
proof (induction evs arbitrary: t)
  case Nil
  then show ?case by simp
next
  case (Cons e evs)
  show ?case
  proof (cases "e = Close")
    case True
    have "\<not> isConnected (fst (run (fst (ws_onclose t)) evs))"
      using run_stays_disconnected[of evs "fst (ws_onclose t)"] Cons.prems(1) onclose_disconnects
      by simp
    then show ?thesis using True by (simp add: split_def Let_def)
  next
    case False
    then show ?thesis
      using Cons.IH[of "fst (step t e)"] Cons.prems by (simp add: split_def Let_def)
  qed
qed

text \<open>
  Claim C8. Take any sequence of transport events in which the connection is never
  re-established (no \<open>Open\<close>): closes, timer-driven or caller-driven connect attempts,
  errors, messages, calls of \<^verbatim>\<open>sendRpcRequest\<close> and the firings of its two timers, from
  any transport state. The close handler schedules at
  most \<open>maxReconnectAttempts\<close> reconnects, their delays are non-decreasing and none
  exceeds 5000 ms. Once more closes have occurred than attempts were left, the
  disconnected state has been shown, the transport is not connected, and no later
  event sequence without an open schedules another reconnect.
\<close>

theorem reconnect_loop_bounded:
  assumes "Open \<notin> set evs"
  shows "length (delays (snd (run t evs))) \<le> maxReconnectAttempts
       \<and> sorted (delays (snd (run t evs)))
       \<and> (\<forall>d \<in> set (delays (snd (run t evs))). d \<le> 5000)
       \<and> (maxReconnectAttempts - reconnectAttempts t < count_list evs Close \<longrightarrow>
             ShowDisconnected \<in> set (snd (run t evs))
           \<and> \<not> isConnected (fst (run t evs))
           \<and> (\<forall>more. Open \<notin> set more \<longrightarrow>
                  delays (snd (run (fst (run t evs)) more)) = []))"
proof -
  let ?ds = "delays (snd (run t evs))"
  note ex = run_delays_exact[OF assms, of t]
  have "length ?ds = min (count_list evs Close) (maxReconnectAttempts - reconnectAttempts t)"
    by (simp only: ex length_map length_upt add_diff_cancel_left')
  then have len: "length ?ds \<le> maxReconnectAttempts"
    by linarith
  have srt: "sorted ?ds"
    unfolding ex by (rule sorted_capped_delays)
  have cap: "\<forall>d \<in> set ?ds. d \<le> 5000"
    unfolding ex by auto
  have "ShowDisconnected \<in> set (snd (run t evs))
      \<and> \<not> isConnected (fst (run t evs))
      \<and> (\<forall>more. Open \<notin> set more \<longrightarrow> delays (snd (run (fst (run t evs)) more)) = [])"
    if exceeded: "maxReconnectAttempts - reconnectAttempts t < count_list evs Close"
  proof -
    have shown: "ShowDisconnected \<in> set (snd (run t evs))"
      using run_terminal[OF assms exceeded] .
    have "0 < count_list evs Close" using exceeded by simp
    then have "Close \<in> set evs"
      using count_list_0_iff[of evs Close] by auto
    then have disc: "\<not> isConnected (fst (run t evs))"
      using run_close_disconnects[OF assms] by simp
    have full: "maxReconnectAttempts \<le> reconnectAttempts (fst (run t evs))"
      using run_attempts[OF assms, of t] exceeded by simp
    have stop: "delays (snd (run (fst (run t evs)) more)) = []" if "Open \<notin> set more" for more
      using run_delays_exact[OF that, of "fst (run t evs)"] full by simp
    show ?thesis using shown disc stop by blast
  qed
  with len srt cap show ?thesis by blast
qed

theorem reconnect_loop_bounded_witness:
  "Open \<notin> set six_closes
   \<and> delays (snd (run fresh_transport six_closes)) = [1000, 2000, 3000, 4000, 5000]
   \<and> length (delays (snd (run fresh_transport six_closes))) \<le> maxReconnectAttempts
   \<and> sorted (delays (snd (run fresh_transport six_closes)))
   \<and> ShowDisconnected \<in> set (snd (run fresh_transport six_closes))
   \<and> \<not> isConnected (fst (run fresh_transport six_closes))"
proof -
  have h: "Open \<notin> set six_closes"
    by (simp add: six_closes_def)
  have c: "maxReconnectAttempts - reconnectAttempts fresh_transport < count_list six_closes Close"
    by (simp add: six_closes_def fresh_transport_def maxReconnectAttempts_def)
  have d: "delays (snd (run fresh_transport six_closes)) = [1000, 2000, 3000, 4000, 5000]"
    by (simp add: six_closes_def fresh_transport_def maxReconnectAttempts_def ws_onclose_def
        connectWebSocket_def Let_def)
  show ?thesis
    using reconnect_loop_bounded[OF h, of fresh_transport] h c d by blast
qed

section \<open>Requests pending when the connection closes\<close>

text \<open>
  Claim C2, as the code has it. The close handler does not touch the pending-request
  table and settles no promise: every request that was pending before the close is
  still pending after it, and the handler's only effects are the reconnect timer or the
  disconnected display.
\<close>

theorem onclose_keeps_pending:
  "pendingRequests (fst (ws_onclose t)) = pendingRequests t
   \<and> filter is_settle (snd (ws_onclose t)) = []"
  by (simp add: ws_onclose_def Let_def)

text \<open>
  Claim C2 as stated fails: request 1 is pending on a connected transport, the
  connection closes, and the request is still in the table with no rejection issued.
\<close>

theorem onclose_drops_pending_counterexample:
  "1 \<in> pendingRequests busy_transport
   \<and> 1 \<in> pendingRequests (fst (ws_onclose busy_transport))
   \<and> snd (ws_onclose busy_transport) = [SetTimeoutConnect 1000]"
  by (simp add: busy_transport_def ws_onclose_def maxReconnectAttempts_def Let_def)

section \<open>Listing records\<close>




text \<open>
  An entry is listed exactly when its blob comes back with data, the data decrypts
  under the token and the plaintext parses; the record listed is the parsed object
  with the height of the entry.
\<close>

lemma fetch_entry_Some_iff:
  "fetch_entry e namespaceHex recordInfo = Some data \<longleftrightarrow>
     (\<exists>recordBlob.
        retrieveBlob e (String_number e (ri_height recordInfo)) namespaceHex = Some recordBlob
      \<and> blob_data recordBlob = Some data \<and> data \<noteq> [])"
  by (auto simp: fetch_entry_def split: option.splits)

lemma entry_outcome_Some_iff:
  "entry_outcome e token namespaceHex recordInfo = Some r \<longleftrightarrow>
     (\<exists>data recordJson parsed.
        fetch_entry e namespaceHex recordInfo = Some data
      \<and> decryptData e (decodeFromBase64 data) token = Some recordJson
      \<and> json_parse e recordJson = Some parsed
      \<and> r = \<lparr>lr_record = parsed, lr_height = ri_height recordInfo\<rparr>)"
  by (auto simp: entry_outcome_def split: option.splits)




section \<open>Clearing the local state\<close>

text \<open>
  Claim C9, as the code has it. The monolithic \<^verbatim>\<open>clearDatabaseCache\<close> removes all
  four entries (namespace, schema height, record index, token). The one of database.js
  removes the namespace and the cached schema and keeps the token. Both act on local
  storage only: neither takes part in any request to the node.
\<close>

theorem clear_cache_effect:
  "clearDatabaseCache ls DB_NAMESPACE_KEY = None
   \<and> clearDatabaseCache ls DB_SCHEMA_HEIGHT_KEY = None
   \<and> clearDatabaseCache ls DB_RECORDS_KEY = None
   \<and> clearDatabaseCache ls DB_AUTH_TOKEN_KEY = None
   \<and> database_clearDatabaseCache ls database_DB_NAMESPACE_KEY = None
   \<and> database_clearDatabaseCache ls database_DB_SCHEMA_KEY = None
   \<and> database_clearDatabaseCache ls database_DB_TOKEN_KEY = ls database_DB_TOKEN_KEY"
  by (simp add: clearDatabaseCache_def database_clearDatabaseCache_def removeItem_def
      database_DB_NAMESPACE_KEY_def database_DB_SCHEMA_KEY_def database_DB_TOKEN_KEY_def)

text \<open>
  Claim C9 as stated fails on database.js: a stored token is still there after
  \<^verbatim>\<open>clearDatabaseCache\<close> ran.
\<close>

theorem clear_cache_keeps_token_counterexample:
  "database_clearDatabaseCache
     [database_DB_NAMESPACE_KEY \<mapsto> toy_namespace, database_DB_TOKEN_KEY \<mapsto> ''secret'']
     database_DB_TOKEN_KEY = Some ''secret''"
  by (simp add: database_clearDatabaseCache_def removeItem_def
      database_DB_NAMESPACE_KEY_def database_DB_SCHEMA_KEY_def database_DB_TOKEN_KEY_def)

section \<open>Schema validation\<close>

lemma get_property_own:
  "\<not> inherited_name field \<Longrightarrow>
   get_property data field = (case map_of data field of None \<Rightarrow> Undefined | Some v \<Rightarrow> Value v)"
  by (simp add: get_property_def inherited_name_def split: option.splits)

lemma typeof_strings:
  "typeof (Value v) = ''string'' \<longleftrightarrow> (\<exists>s. v = JString s)"
  "typeof (Value v) = ''number'' \<longleftrightarrow> (\<exists>n. v = JNumber n)"
  "typeof (Value v) = ''boolean'' \<longleftrightarrow> (\<exists>b. v = JBool b)"
  by (cases v; simp)+

lemma validate_step_absent:
  assumes "\<not> inherited_name field" "map_of data field = None"
  shows "validate_fields data ((field, fieldSchema) # rest) =
           (if fs_required fieldSchema then invalid_field field '' is required''
            else validate_fields data rest)"
  using assms by (simp add: get_property_own)

lemma validate_step_present:
  assumes "\<not> inherited_name field" "map_of data field = Some v"
      and "fs_type fieldSchema = Some declared" "declared \<in> set declared_types"
  shows "isValid (validate_fields data ((field, fieldSchema) # rest)) =
           (\<not> (fs_required fieldSchema \<and> v = JNull) \<and> type_matches declared v
            \<and> isValid (validate_fields data rest))"
proof -
  have gp: "get_property data field = Value v"
    using assms(1,2) by (simp add: get_property_own)
  consider "declared = ''string''" | "declared = ''number''" | "declared = ''boolean''"
    | "declared = ''object''" | "declared = ''array''"
    using assms(4) by (auto simp: declared_types_def)
  then show ?thesis
  proof cases
    case 1
    then show ?thesis
      using assms(3) gp by (cases v) (auto simp: type_matches_def invalid_field_def Let_def)
  next
    case 2
    then show ?thesis
      using assms(3) gp by (cases v) (auto simp: type_matches_def invalid_field_def Let_def)
  next
    case 3
    then show ?thesis
      using assms(3) gp by (cases v) (auto simp: type_matches_def invalid_field_def Let_def)
  next
    case 4
    then show ?thesis
      using assms(3) gp by (cases v) (auto simp: type_matches_def invalid_field_def Let_def)
  next
    case 5
    then show ?thesis
      using assms(3) gp by (cases v) (auto simp: type_matches_def invalid_field_def Let_def)
  qed
qed

text \<open>
  Where the rule of the specification and the code agree: on schemas whose types are
  among the five declared ones and whose field names are not names that every object
  inherits from \<^verbatim>\<open>Object.prototype\<close>.
\<close>

lemma validate_fields_rule:
  assumes "list_all well_formed_field flds"
  shows "isValid (validate_fields data flds) \<longleftrightarrow> \<not> list_ex (field_violation data) flds"
  using assms
proof (induction flds)
  case Nil
  then show ?case by simp
next
  case (Cons entry rest)
  obtain field fieldSchema where entry: "entry = (field, fieldSchema)"
    by (cases entry)
  from Cons.prems have wfe: "well_formed_field (field, fieldSchema)"
    and rest: "list_all well_formed_field rest"
    by (simp_all add: entry)
  from wfe obtain declared where
    wf: "\<not> inherited_name field" "fs_type fieldSchema = Some declared"
        "declared \<in> set declared_types"
    by (cases "fs_type fieldSchema") (simp_all add: well_formed_field_def)
  note ih = Cons.IH[OF rest]
  show ?case
  proof (cases "map_of data field")
    case None
    then show ?thesis
      using validate_step_absent[OF wf(1) None, of fieldSchema rest] ih
      by (simp add: entry field_violation_def invalid_field_def)
  next
    case (Some v)
    then show ?thesis
      using validate_step_present[OF wf(1) Some wf(2,3), of rest] ih wf(2)
      by (auto simp: entry field_violation_def)
  qed
qed

text \<open>
  Claim C4, at an input where the code departs from it: an optional field that the
  record does not have but every object inherits. The schema declares the optional
  string field
  \<^verbatim>\<open>toString\<close>; the record is the empty object. The field is absent and optional, so
  the rule of the specification finds no violation, yet \<^verbatim>\<open>data[field]\<close> is the
  inherited function, not \<^verbatim>\<open>undefined\<close>, and validation fails with a type error.
\<close>

theorem inherited_optional_field_rejected:
  "map_of [] ''toString'' = (None :: json option)
   \<and> \<not> list_ex (field_violation []) (schema_fields optional_toString_schema)
   \<and> get_property [] ''toString'' = InheritedFunction
   \<and> validateDataAgainstSchema [] optional_toString_schema =
       invalid_field ''toString'' '' must be a string''"
  by (simp add: validateDataAgainstSchema_def optional_toString_schema_def field_violation_def
      get_property_def object_prototype_functions_def)

section \<open>Base64 and hexadecimal text: decoding inverts encoding\<close>

lemma charCodeAt_char_of: "n < 256 \<Longrightarrow> charCodeAt (char_of n) = n"
  by (simp add: charCodeAt_def)

lemma unat_byte: "unat (b :: byte) < 256"
  using unsigned_less[of b, where 'a = nat] by simp

lemma b64val_b64char: "n < 64 \<Longrightarrow> b64val (b64char n) = Some n"
  by (simp add: b64val_def b64char_def charCodeAt_def Let_def) arith

lemma b64char_not_pad: "n < 64 \<Longrightarrow> b64char n \<noteq> CHR ''=''"
  using b64val_b64char[of n] by (auto simp: b64val_def charCodeAt_def Let_def)

lemma b64char_not_space: "n < 64 \<Longrightarrow> \<not> is_ascii_whitespace (b64char n)"
  using b64val_b64char[of n]
  by (auto simp: b64val_def is_ascii_whitespace_def Let_def split: if_splits)

lemma sextets_bound: "\<forall>x \<in> set (sextets bs). x < 64"
proof (induction bs rule: sextets.induct)
  case (1 a b c rest)
  have "unat a < 256" "unat b < 256" "unat c < 256"
    by (rule unat_byte)+
  then show ?case using 1 by (auto; presburger?)
next
  case (2 a b)
  have "unat a < 256" "unat b < 256"
    by (rule unat_byte)+
  then show ?case by (auto; presburger?)
next
  case (3 a)
  have "unat a < 256" by (rule unat_byte)
  then show ?case by (auto; presburger?)
next
  case 4
  then show ?case by simp
qed

lemma sextet_arith:
  fixes x y z :: nat
  assumes "y < 256" "z < 256"
  shows "x div 4 * 4 + (x mod 4 * 16 + y div 16) div 16 = x"
    and "(x mod 4 * 16 + y div 16) mod 16 * 16 + (y mod 16 * 4 + z div 64) div 4 = y"
    and "(y mod 16 * 4 + z div 64) mod 4 * 64 + z mod 64 = z"
    and "x div 4 * 4 + (x mod 4 * 16) div 16 = x"
    and "(x mod 4 * 16 + y div 16) mod 16 * 16 + (y mod 16 * 4) div 4 = y"
proof -
  have a: "y div 16 < 16" using assms by simp
  have b: "z div 64 < 4" using assms by simp
  have q: "(x mod 4 * 16 + y div 16) div 16 = x mod 4"
          "(x mod 4 * 16 + y div 16) mod 16 = y div 16"
    using a by simp_all
  have r: "(y mod 16 * 4 + z div 64) div 4 = y mod 16"
          "(y mod 16 * 4 + z div 64) mod 4 = z div 64"
    using b by simp_all
  show "x div 4 * 4 + (x mod 4 * 16 + y div 16) div 16 = x"
    unfolding q by simp
  show "(x mod 4 * 16 + y div 16) mod 16 * 16 + (y mod 16 * 4 + z div 64) div 4 = y"
    unfolding q r by simp
  show "(y mod 16 * 4 + z div 64) mod 4 * 64 + z mod 64 = z"
    unfolding r by simp
  show "x div 4 * 4 + (x mod 4 * 16) div 16 = x"
    by simp
  show "(x mod 4 * 16 + y div 16) mod 16 * 16 + (y mod 16 * 4) div 4 = y"
    unfolding q by simp
qed

lemma b64dec_sextets: "b64dec (sextets bs) = bs"
proof (induction bs rule: sextets.induct)
  case (1 a b c rest)
  have "unat a div 4 * 4 + (unat a mod 4 * 16 + unat b div 16) div 16 = unat a"
    "(unat a mod 4 * 16 + unat b div 16) mod 16 * 16 + (unat b mod 16 * 4 + unat c div 64) div 4
       = unat b"
    "(unat b mod 16 * 4 + unat c div 64) mod 4 * 64 + unat c mod 64 = unat c"
    using sextet_arith(1-3)[OF unat_byte[of b] unat_byte[of c]] by blast+
  then show ?case
    using 1 by simp
next
  case (2 a b)
  have "unat a div 4 * 4 + (unat a mod 4 * 16 + unat b div 16) div 16 = unat a"
    "(unat a mod 4 * 16 + unat b div 16) mod 16 * 16 + (unat b mod 16 * 4) div 4 = unat b"
    using sextet_arith(1,5)[OF unat_byte[of b] unat_byte[of b]] by blast+
  then show ?case
    by simp
next
  case (3 a)
  have "unat a div 4 * 4 + (unat a mod 4 * 16) div 16 = unat a"
    using sextet_arith(4)[OF unat_byte[of a] unat_byte[of a]] by blast
  then show ?case
    by simp
next
  case 4
  then show ?case by simp
qed

lemma b64enc_sextets:
  "filter (\<lambda>c. c \<noteq> CHR ''='') (b64enc bs) = map b64char (sextets bs)"
proof (induction bs rule: sextets.induct)
  case (1 a b c rest)
  have "\<forall>x \<in> set (sextets (a # b # c # rest)). x < 64" by (rule sextets_bound)
  then show ?case using 1 by (simp add: b64char_not_pad)
next
  case (2 a b)
  have "\<forall>x \<in> set (sextets [a, b]). x < 64" by (rule sextets_bound)
  then show ?case by (simp add: b64char_not_pad)
next
  case (3 a)
  have "\<forall>x \<in> set (sextets [a]). x < 64" by (rule sextets_bound)
  then show ?case by (simp add: b64char_not_pad)
next
  case 4
  then show ?case by simp
qed

lemma Buffer_b64val_b64char: "n < 64 \<Longrightarrow> Buffer_b64val (b64char n) = Some n"
  using b64val_b64char[of n]
  by (auto simp: Buffer_b64val_def b64val_def charCodeAt_def Let_def split: if_splits)

lemma takeWhile_b64enc:
  "List.map_filter Buffer_b64val (takeWhile (\<lambda>c. c \<noteq> CHR ''='') (b64enc bs)) = sextets bs"
proof (induction bs rule: sextets.induct)
  case (1 a b c rest)
  have "\<forall>x \<in> set (sextets (a # b # c # rest)). x < 64" by (rule sextets_bound)
  then show ?case using 1 by (simp add: b64char_not_pad Buffer_b64val_b64char List.map_filter_simps)
next
  case (2 a b)
  have "\<forall>x \<in> set (sextets [a, b]). x < 64" by (rule sextets_bound)
  then show ?case by (simp add: b64char_not_pad Buffer_b64val_b64char List.map_filter_simps)
next
  case (3 a)
  have "\<forall>x \<in> set (sextets [a]). x < 64" by (rule sextets_bound)
  then show ?case by (simp add: b64char_not_pad Buffer_b64val_b64char List.map_filter_simps)
next
  case 4
  then show ?case by (simp add: List.map_filter_simps)
qed

lemma Buffer_from_base64_b64enc: "Buffer_from_base64 (b64enc bs) = bs"
  by (simp add: Buffer_from_base64_def takeWhile_b64enc b64dec_sextets)

lemma length_sextets_mod4: "length (sextets bs) mod 4 \<noteq> 1"
  by (induction bs rule: sextets.induct) simp_all

lemma map_filter_b64val_chars:
  "\<forall>x \<in> set sx. x < 64 \<Longrightarrow> List.map_filter b64val (map b64char sx) = sx"
  by (induction sx) (simp_all add: List.map_filter_simps b64val_b64char)

lemma strip_padding_chars:
  assumes "\<forall>x \<in> set sx. x < 64"
  shows "strip_padding (map b64char sx) = map b64char sx"
proof (cases "sx = []")
  case True
  then show ?thesis by (simp add: strip_padding_def)
next
  case False
  then have "last (map b64char sx) = b64char (last sx)" "last sx < 64"
    using assms by (simp_all add: last_map)
  then show ?thesis
    using b64char_not_pad[of "last sx"] by (simp add: strip_padding_def)
qed

lemma atob_chars:
  assumes "\<forall>x \<in> set sx. x < 64" "length sx mod 4 \<noteq> 1"
  shows "atob (map b64char sx) = Some (map fromCharCode (b64dec sx))"
proof -
  have f: "filter (\<lambda>c. \<not> is_ascii_whitespace c) (map b64char sx) = map b64char sx"
    using assms(1) by (simp add: filter_id_conv b64char_not_space)
  have v: "\<not> (\<exists>c \<in> set (map b64char sx). b64val c = None)"
    using assms(1) by (auto simp: b64val_b64char)
  show ?thesis
    unfolding atob_def f Let_def strip_padding_chars[OF assms(1)]
    using assms(2) v map_filter_b64val_chars[OF assms(1)] by simp
qed

lemma atob_unpadded_b64enc:
  "atob (filter (\<lambda>c. c \<noteq> CHR ''='') (b64enc bs)) = Some (map fromCharCode bs)"
  unfolding b64enc_sextets
  using atob_chars[OF sextets_bound length_sextets_mod4, of bs] by (simp add: b64dec_sextets)


lemma hexval_hexdigit: "n < 16 \<Longrightarrow> hexval (hexdigit n) = Some n"
  by (simp add: hexval_def hexdigit_def charCodeAt_def Let_def)

lemma hexval_upper_hexdigit: "n < 16 \<Longrightarrow> hexval (upper_char (hexdigit n)) = Some n"
  by (simp add: hexval_def hexdigit_def upper_char_def charCodeAt_def Let_def)

lemma hexdigit_plain:
  assumes "n < 16"
  shows "\<not> is_js_whitespace (hexdigit n)"
    and "hexdigit n \<noteq> CHR ''-''"
    and "hexdigit n \<noteq> CHR ''+''"
    and "hexdigit n \<noteq> CHR ''x''"
    and "hexdigit n \<noteq> CHR ''X''"
  using hexval_hexdigit[OF assms]
  by (auto simp: hexval_def is_js_whitespace_def charCodeAt_def Let_def split: if_splits)

lemma parseInt16_hexdigits:
  assumes "a < 16" "b < 16"
  shows "parseInt16 [hexdigit a, hexdigit b] = Some (int (16 * a + b))"
  using hexdigit_plain[OF assms(1)] hexdigit_plain[OF assms(2)]
  by (simp add: parseInt16_def Let_def hexval_hexdigit[OF assms(1)]
      hexval_hexdigit[OF assms(2)])

lemma Buffer_from_hex_toString: "Buffer_from_hex (Buffer_toString_hex bs) = bs"
proof (induction bs)
  case Nil
  then show ?case by (simp add: Buffer_toString_hex_def)
next
  case (Cons b bs)
  have d: "unat b div 16 < 16" "unat b mod 16 < 16"
    using unat_byte[of b] by simp_all
  have "16 * (unat b div 16) + unat b mod 16 = unat b"
    by simp
  then have v: "(of_int (int (16 * (unat b div 16) + unat b mod 16)) :: byte) = b"
    by simp
  have "Buffer_from_hex (Buffer_toString_hex (b # bs)) =
      of_int (int (16 * (unat b div 16) + unat b mod 16)) #
      Buffer_from_hex (Buffer_toString_hex bs)"
    by (simp add: Buffer_toString_hex_def parseInt16_hexdigits[OF d] del: of_int_of_nat_eq)
  then show ?case
    using Cons v by simp
qed

lemma length_Buffer_toString_hex: "length (Buffer_toString_hex bs) = 2 * length bs"
  by (induction bs) (simp_all add: Buffer_toString_hex_def)

lemma byte_of_fromCharCode: "byte_of_char (fromCharCode b) = b"
  using unat_byte[of b] by (simp add: byte_of_char_def fromCharCode_def charCodeAt_def)

lemma btoa_fromCharCode: "btoa (map fromCharCode bs) = b64enc bs"
  by (simp add: btoa_def byte_of_fromCharCode comp_def)


lemma upper_hexdigit_plain:
  assumes "n < 16"
  shows "\<not> is_js_whitespace (upper_char (hexdigit n))"
    and "upper_char (hexdigit n) \<noteq> CHR ''-''"
    and "upper_char (hexdigit n) \<noteq> CHR ''+''"
    and "upper_char (hexdigit n) \<noteq> CHR ''x''"
    and "upper_char (hexdigit n) \<noteq> CHR ''X''"
  using hexval_upper_hexdigit[OF assms]
  by (auto simp: hexval_def is_js_whitespace_def charCodeAt_def Let_def split: if_splits)

lemma parseInt16_pair:
  assumes "a < 16" "b < 16"
  shows "parseInt16 [upper_char (hexdigit a), upper_char (hexdigit b)] = Some (int (16 * a + b))"
  using upper_hexdigit_plain[OF assms(1)] upper_hexdigit_plain[OF assms(2)]
  by (simp add: parseInt16_def Let_def hexval_upper_hexdigit[OF assms(1)]
      hexval_upper_hexdigit[OF assms(2)])

lemma hexdigit_0: "hexdigit 0 = CHR ''0''"
  by code_simp

lemma char_of_charCodeAt: "map (char_of \<circ> charCodeAt) s = s"
  by (induction s) (simp_all add: charCodeAt_def)

lemma hex_of_code_byte:
  "n < 256 \<Longrightarrow> toUpperCase (hex_of_code n) =
     [upper_char (hexdigit (n div 16)), upper_char (hexdigit (n mod 16))]"
  by (simp add: hex_of_code_def toString16_def toUpperCase_def Let_def hexdigit_0)

lemma charCodeAt_bound: "charCodeAt c < 256"
  by (simp add: charCodeAt_def)

lemma toUpperCase_append: "toUpperCase (xs @ ys) = toUpperCase xs @ toUpperCase ys"
  by (simp add: toUpperCase_def)

lemma hex_pairs_text:
  "hex_pairs (toUpperCase (concat (map (\<lambda>c. hex_of_code (charCodeAt c)) s))) =
     map charCodeAt s"
proof (induction s)
  case Nil
  then show ?case by (simp add: toUpperCase_def)
next
  case (Cons c s)
  have d: "charCodeAt c div 16 < 16" "charCodeAt c mod 16 < 16"
    using charCodeAt_bound[of c] by simp_all
  have v: "code_unit_of (Some (int (charCodeAt c))) = charCodeAt c"
    using charCodeAt_bound[of c] by (simp add: code_unit_of_def nat_mod_distrib)
  show ?case
    using Cons
    by (simp add: toUpperCase_append hex_of_code_byte[OF charCodeAt_bound]
        parseInt16_pair[OF d] v del: mult_Suc_right)
qed

lemma upper_text_no_prefix:
  "take 2 (toUpperCase (concat (map (\<lambda>c. hex_of_code (charCodeAt c)) s))) \<noteq> ''0x''"
proof (cases s)
  case Nil
  then show ?thesis by (simp add: toUpperCase_def)
next
  case (Cons c rest)
  have d: "charCodeAt c mod 16 < 16"
    by simp
  show ?thesis
    using upper_hexdigit_plain(4)[OF d]
    by (simp add: Cons toUpperCase_append hex_of_code_byte[OF charCodeAt_bound])
qed

lemma common_roundtrip_text:
  assumes "atob (filter (\<lambda>c. c \<noteq> CHR ''='') n) = Some s"
  shows "common_hexToBase64 (common_base64ToHex n) = btoa s"
proof -
  have le: "charCodeAt c \<le> 255" for c
    using charCodeAt_bound[of c] by simp
  have "\<not> list_ex (\<lambda>u. u > 255) (map charCodeAt s)"
    by (induction s) (simp_all add: not_less le)
  then show ?thesis
    using assms upper_text_no_prefix[of s]
    by (simp add: common_hexToBase64_def common_base64ToHex_def hex_pairs_text Let_def
        char_of_charCodeAt)
qed

lemma isValidBase64_encoded: "isValidBase64 n \<Longrightarrow> \<exists>bs. n = b64enc bs"
  by (auto simp: isValidBase64_def btoa_def split: option.splits)

lemma common_roundtrip_valid:
  assumes "isValidBase64 n"
  shows "common_hexToBase64 (common_base64ToHex n) = n"
proof -
  obtain bs where n: "n = b64enc bs"
    using isValidBase64_encoded[OF assms] by blast
  show ?thesis
    using common_roundtrip_text[OF atob_unpadded_b64enc[of bs]]
    by (simp add: n btoa_fromCharCode)
qed

lemma zero_array_version: "(replicate 29 (0 :: byte))[0 := 0] = replicate 29 0"
  by (rule nth_equalityI) (simp_all add: nth_list_update)

lemma monolith_display_form:
  assumes "length (Buffer_from_base64 n) = 29"
  shows "base64ToHex n = Buffer_toString_hex (drop 19 (Buffer_from_base64 n))"
    and "hexToBase64 (base64ToHex n) = b64enc (drop 19 (Buffer_from_base64 n))"
    and "retrieveBlob_namespace (base64ToHex n) =
           Some (b64enc (replicate 19 0 @ drop 19 (Buffer_from_base64 n)))"
proof -
  show h: "base64ToHex n = Buffer_toString_hex (drop 19 (Buffer_from_base64 n))"
    using assms by (simp add: base64ToHex_def)
  show "hexToBase64 (base64ToHex n) = b64enc (drop 19 (Buffer_from_base64 n))"
    by (simp add: h hexToBase64_def Buffer_from_hex_toString)
  show "retrieveBlob_namespace (base64ToHex n) =
           Some (b64enc (replicate 19 0 @ drop 19 (Buffer_from_base64 n)))"
    using assms
    by (simp add: h retrieveBlob_namespace_def Buffer_from_hex_toString typed_set_def Let_def
        zero_array_version)
qed

lemma b64enc_padded:
  "\<exists>k \<le> 2. b64enc bs = map b64char (sextets bs) @ replicate k (CHR ''='')
           \<and> (k = 0 \<or> sextets bs \<noteq> [])"
proof (induction bs rule: sextets.induct)
  case (1 a b c rest)
  then obtain k where "k \<le> 2"
    "b64enc rest = map b64char (sextets rest) @ replicate k (CHR ''='')"
    by blast
  then show ?case by (intro exI[of _ k]) simp
next
  case (2 a b)
  show ?case by (intro exI[of _ 1]) simp
next
  case (3 a)
  show ?case by (intro exI[of _ 2]) (simp add: numeral_2_eq_2)
next
  case 4
  show ?case by (intro exI[of _ 0]) simp
qed

lemma length_b64enc_mod4: "length (b64enc bs) mod 4 = 0"
  by (induction bs rule: b64enc.induct) simp_all

lemma b64enc_no_space: "filter (\<lambda>c. \<not> is_ascii_whitespace c) (b64enc bs) = b64enc bs"
proof -
  have "\<not> is_ascii_whitespace (CHR ''='')"
    by (simp add: is_ascii_whitespace_def charCodeAt_def)
  moreover have "\<forall>x \<in> set (sextets bs). \<not> is_ascii_whitespace (b64char x)"
    using sextets_bound[of bs] b64char_not_space by blast
  ultimately show ?thesis
    using b64enc_padded[of bs] by (auto simp: filter_id_conv)
qed

lemma strip_padding_b64enc: "strip_padding (b64enc bs) = map b64char (sextets bs)"
proof -
  obtain k where k: "k \<le> 2"
    "b64enc bs = map b64char (sextets bs) @ replicate k (CHR ''='')"
    "k = 0 \<or> sextets bs \<noteq> []"
    using b64enc_padded[of bs] by blast
  let ?xs = "map b64char (sextets bs)"
  have notpad: "last ?xs \<noteq> CHR ''=''" if "sextets bs \<noteq> []"
  proof -
    have "last ?xs = b64char (last (sextets bs))" "last (sextets bs) < 64"
      using that sextets_bound[of bs] by (simp_all add: last_map)
    then show ?thesis using b64char_not_pad by simp
  qed
  have m: "length (?xs @ replicate k (CHR ''='')) mod 4 = 0"
    using length_b64enc_mod4[of bs] k(2) by simp
  consider "k = 0" | "k = 1" | "k = 2" using k(1) by linarith
  then show ?thesis
  proof cases
    case 1
    show ?thesis
    proof (cases "sextets bs = []")
      case True
      then show ?thesis using k(2) 1 by (simp add: strip_padding_def)
    next
      case False
      then show ?thesis using k(2) 1 notpad by (simp add: strip_padding_def)
    qed
  next
    case 2
    then have ne: "sextets bs \<noteq> []" using k(3) by simp
    show ?thesis
      using k(2) 2 m notpad[OF ne] ne by (simp add: strip_padding_def butlast_append)
  next
    case 3
    then have ne: "sextets bs \<noteq> []" using k(3) by simp
    have r: "replicate k (CHR ''='') = [CHR ''='', CHR ''='']"
      using 3 by (simp add: numeral_2_eq_2)
    show ?thesis
      using k(2) m notpad[OF ne] ne unfolding r
      by (simp add: strip_padding_def butlast_append)
  qed
qed

lemma atob_b64enc: "atob (b64enc bs) = Some (map fromCharCode bs)"
proof -
  have v: "\<not> (\<exists>c \<in> set (map b64char (sextets bs)). b64val c = None)"
    using sextets_bound[of bs] by (auto simp: b64val_b64char)
  show ?thesis
    unfolding atob_def Let_def b64enc_no_space strip_padding_b64enc
    using v length_sextets_mod4[of bs] map_filter_b64val_chars[OF sextets_bound, of bs]
    by (simp add: b64dec_sextets)
qed

lemma isValidBase64_b64enc: "isValidBase64 (b64enc bs)"
  by (simp add: isValidBase64_def atob_b64enc btoa_fromCharCode)

section \<open>The secret token\<close>

lemma b64enc_nonempty: "bs \<noteq> [] \<Longrightarrow> b64enc bs \<noteq> []"
  by (cases bs rule: b64enc.cases) simp_all

lemma generateAuthToken_nonempty:
  "randomBuffer \<noteq> [] \<Longrightarrow> generateAuthToken randomBuffer \<noteq> []"
  by (simp add: generateAuthToken_def btoa_def b64enc_nonempty)

lemma getOrCreate_existing:
  "\<not> falsy (ls DB_AUTH_TOKEN_KEY) \<Longrightarrow>
   getOrCreateAuthToken r ls = (the (ls DB_AUTH_TOKEN_KEY), ls)"
  by (simp add: getOrCreateAuthToken_def)

lemma getOrCreate_missing:
  "falsy (ls DB_AUTH_TOKEN_KEY) \<Longrightarrow>
   getOrCreateAuthToken r ls =
     (generateAuthToken r, ls(DB_AUTH_TOKEN_KEY \<mapsto> generateAuthToken r))"
  by (simp add: getOrCreateAuthToken_def Let_def)

lemma keys_distinct:
  "DB_NAMESPACE_KEY \<noteq> DB_AUTH_TOKEN_KEY"
  "DB_SCHEMA_HEIGHT_KEY \<noteq> DB_AUTH_TOKEN_KEY"
  "DB_RECORDS_KEY \<noteq> DB_AUTH_TOKEN_KEY"
  by (simp_all add: DB_NAMESPACE_KEY_def DB_AUTH_TOKEN_KEY_def DB_SCHEMA_HEIGHT_KEY_def
      DB_RECORDS_KEY_def)

lemma initializeDatabase_keeps_token:
  assumes "\<not> falsy (ls DB_AUTH_TOKEN_KEY)"
  shows "snd (initializeDatabase e namespace schemaText ls) DB_AUTH_TOKEN_KEY =
         ls DB_AUTH_TOKEN_KEY"
  using keys_distinct
  by (simp add: initializeDatabase_def getOrCreate_existing[of ls, OF assms] Let_def
      split: option.splits sum.splits)

lemma addDatabaseRecord_keeps_token:
  assumes "\<not> falsy (ls DB_AUTH_TOKEN_KEY)"
  shows "snd (addDatabaseRecord e dataText ls) DB_AUTH_TOKEN_KEY = ls DB_AUTH_TOKEN_KEY"
  using keys_distinct
  by (simp add: addDatabaseRecord_def getOrCreate_existing[of ls, OF assms] Let_def
      split: option.splits sum.splits)

lemma retrieveDatabaseSchema_keeps_token:
  assumes "\<not> falsy (ls DB_AUTH_TOKEN_KEY)"
  shows "snd (retrieveDatabaseSchema e ls) DB_AUTH_TOKEN_KEY = ls DB_AUTH_TOKEN_KEY"
  by (simp add: retrieveDatabaseSchema_def getOrCreate_existing[of ls, OF assms] Let_def
      split: option.splits sum.splits)

lemma retrieveDatabaseRecords_keeps_token:
  assumes "\<not> falsy (ls DB_AUTH_TOKEN_KEY)"
  shows "snd (retrieveDatabaseRecords e ls) DB_AUTH_TOKEN_KEY = ls DB_AUTH_TOKEN_KEY"
  by (simp add: retrieveDatabaseRecords_def getOrCreate_existing[of ls, OF assms] Let_def
      split: option.splits sum.splits)

lemma getOrCreate_twice:
  assumes "r \<noteq> []"
  shows "fst (getOrCreateAuthToken r' (snd (getOrCreateAuthToken r ls))) =
         fst (getOrCreateAuthToken r ls)"
proof (cases "falsy (ls DB_AUTH_TOKEN_KEY)")
  case True
  have "\<not> falsy ((ls(DB_AUTH_TOKEN_KEY \<mapsto> generateAuthToken r)) DB_AUTH_TOKEN_KEY)"
    using generateAuthToken_nonempty[OF assms] by (simp add: falsy_def)
  then show ?thesis
    using True by (simp add: getOrCreate_missing getOrCreate_existing)
next
  case False
  then show ?thesis by (simp add: getOrCreate_existing)
qed

lemma hex_of_code_nonempty: "hex_of_code n \<noteq> []"
  by (simp add: hex_of_code_def toString16_def Let_def)

lemma database_generateAuthToken_nonempty:
  "array \<noteq> [] \<Longrightarrow> database_generateAuthToken array \<noteq> []"
  by (cases array) (simp_all add: database_generateAuthToken_def hex_of_code_nonempty)

lemma database_getOrCreate_existing:
  "\<not> falsy (ls database_DB_TOKEN_KEY) \<Longrightarrow>
   database_getOrCreateAuthToken r ls = (the (ls database_DB_TOKEN_KEY), ls)"
  by (simp add: database_getOrCreateAuthToken_def)

lemma database_getOrCreate_missing:
  "falsy (ls database_DB_TOKEN_KEY) \<Longrightarrow>
   database_getOrCreateAuthToken r ls =
     (database_generateAuthToken r, ls(database_DB_TOKEN_KEY \<mapsto> database_generateAuthToken r))"
  by (simp add: database_getOrCreateAuthToken_def Let_def)

lemma database_getOrCreate_twice:
  assumes "r \<noteq> []"
  shows "fst (database_getOrCreateAuthToken r' (snd (database_getOrCreateAuthToken r ls))) =
         fst (database_getOrCreateAuthToken r ls)"
proof (cases "falsy (ls database_DB_TOKEN_KEY)")
  case True
  have "\<not> falsy ((ls(database_DB_TOKEN_KEY \<mapsto> database_generateAuthToken r))
                   database_DB_TOKEN_KEY)"
    using database_generateAuthToken_nonempty[OF assms] by (simp add: falsy_def)
  then show ?thesis
    using True by (simp add: database_getOrCreate_missing database_getOrCreate_existing)
next
  case False
  then show ?thesis by (simp add: database_getOrCreate_existing)
qed

lemma database_keys_distinct:
  "database_DB_NAMESPACE_KEY \<noteq> database_DB_TOKEN_KEY"
  "database_DB_SCHEMA_KEY \<noteq> database_DB_TOKEN_KEY"
  by (simp_all add: database_DB_NAMESPACE_KEY_def database_DB_TOKEN_KEY_def
      database_DB_SCHEMA_KEY_def)

lemma database_initializeDatabase_keeps_token:
  assumes "\<not> falsy (ls database_DB_TOKEN_KEY)"
  shows "snd (database_initializeDatabase d namespace sch ls) database_DB_TOKEN_KEY =
         ls database_DB_TOKEN_KEY"
  using database_keys_distinct
  by (simp add: database_initializeDatabase_def database_getOrCreate_existing[of ls, OF assms]
      split: option.splits bool.splits)

lemma database_addDatabaseRecord_keeps_token:
  assumes "\<not> falsy (ls database_DB_TOKEN_KEY)"
  shows "snd (database_addDatabaseRecord d entry ls) database_DB_TOKEN_KEY =
         ls database_DB_TOKEN_KEY"
  by (simp add: database_addDatabaseRecord_def database_getOrCreate_existing[of ls, OF assms]
      Let_def split: option.splits bool.splits)

lemma database_retrieveDatabaseSchema_keeps_token:
  assumes "\<not> falsy (ls database_DB_TOKEN_KEY)"
  shows "snd (database_retrieveDatabaseSchema d ls) database_DB_TOKEN_KEY =
         ls database_DB_TOKEN_KEY"
  using database_keys_distinct
  by (simp add: database_retrieveDatabaseSchema_def
      database_getOrCreate_existing[of ls, OF assms] Let_def
      split: option.splits json.splits)

lemma database_retrieveDatabaseRecords_keeps_token:
  assumes "\<not> falsy (ls database_DB_TOKEN_KEY)"
  shows "snd (database_retrieveDatabaseRecords d ls) database_DB_TOKEN_KEY =
         ls database_DB_TOKEN_KEY"
  by (simp add: database_retrieveDatabaseRecords_def
      database_getOrCreate_existing[of ls, OF assms] Let_def split: option.splits)

lemma length_b64enc: "length (b64enc bs) = 4 * ((length bs + 2) div 3)"
proof (induction bs rule: b64enc.induct)
  case (1 a b c rest)
  have "(length (a # b # c # rest) + 2) div 3 = Suc ((length rest + 2) div 3)"
    by simp
  with 1 show ?case by simp
qed simp_all

lemma generateAuthToken_draw: "atob (generateAuthToken r) = Some (map fromCharCode r)"
  by (simp add: generateAuthToken_def btoa_fromCharCode atob_b64enc)

lemma length_generateAuthToken: "length r = 32 \<Longrightarrow> length (generateAuthToken r) = 44"
  by (simp add: generateAuthToken_def btoa_fromCharCode length_b64enc)

lemma getOrCreate_stores:
  "snd (getOrCreateAuthToken r ls) DB_AUTH_TOKEN_KEY = Some (fst (getOrCreateAuthToken r ls))"
  by (auto simp: getOrCreateAuthToken_def falsy_def Let_def)

lemma getOrCreate_present:
  assumes "r \<noteq> []"
  shows "\<not> falsy (snd (getOrCreateAuthToken r ls) DB_AUTH_TOKEN_KEY)"
  using generateAuthToken_nonempty[OF assms]
  by (auto simp: getOrCreateAuthToken_def falsy_def Let_def)

lemma hex_of_code_pair:
  "n < 256 \<Longrightarrow> hex_of_code n = [hexdigit (n div 16), hexdigit (n mod 16)]"
  by (simp add: hex_of_code_def toString16_def Let_def hexdigit_0)

lemma database_generateAuthToken_Cons:
  "database_generateAuthToken (b # bs) =
     [hexdigit (unat b div 16), hexdigit (unat b mod 16)] @ database_generateAuthToken bs"
  by (simp add: database_generateAuthToken_def hex_of_code_pair[OF unat_byte])

lemma code_unit_of_byte: "code_unit_of (Some (uint (b :: byte))) = unat b"
proof -
  have lt: "uint b < 256"
    using unsigned_less[of b, where 'a = int] by simp
  have ge: "0 \<le> uint b"
    by simp
  have "uint b mod 65536 = uint b"
    using lt ge by simp
  then show ?thesis
    by (simp add: code_unit_of_def)
qed

lemma database_generateAuthToken_draw:
  "hex_pairs (database_generateAuthToken r) = map unat r"
proof (induction r)
  case Nil
  then show ?case by (simp add: database_generateAuthToken_def)
next
  case (Cons b bs)
  have d: "unat b div 16 < 16" "unat b mod 16 < 16"
    using unat_byte[of b] by simp_all
  have "16 * (unat b div 16) + unat b mod 16 = unat b"
    by simp
  then have v: "code_unit_of (Some (int (16 * (unat b div 16) + unat b mod 16))) = unat b"
    using code_unit_of_byte[of b] by simp
  have "hex_pairs (database_generateAuthToken (b # bs)) =
      code_unit_of (Some (int (16 * (unat b div 16) + unat b mod 16))) #
      hex_pairs (database_generateAuthToken bs)"
    unfolding database_generateAuthToken_Cons
    by (simp add: parseInt16_hexdigits[OF d] del: of_nat_add of_nat_mult)
  then show ?case
    unfolding v using Cons by simp
qed

lemma length_database_generateAuthToken:
  "length (database_generateAuthToken r) = 2 * length r"
  by (induction r) (simp_all add: database_generateAuthToken_Cons,
      simp add: database_generateAuthToken_def)

lemma database_getOrCreate_stores:
  "snd (database_getOrCreateAuthToken r ls) database_DB_TOKEN_KEY =
     Some (fst (database_getOrCreateAuthToken r ls))"
  by (auto simp: database_getOrCreateAuthToken_def falsy_def Let_def)

lemma database_getOrCreate_present:
  assumes "r \<noteq> []"
  shows "\<not> falsy (snd (database_getOrCreateAuthToken r ls) database_DB_TOKEN_KEY)"
  using database_generateAuthToken_nonempty[OF assms]
  by (auto simp: database_getOrCreateAuthToken_def falsy_def Let_def)

text \<open>
  Claim C10. A stored token is one that is present and not the empty string (the
  source tests \<^verbatim>\<open>!token\<close>). In every state of local storage and for every random
  draw: when a token is stored, \<^verbatim>\<open>getOrCreateAuthToken\<close> returns it and leaves storage
  as it is, and initialising, appending, retrieving the schema and listing leave the
  stored token as it is, whatever the platform and the node answer; when none is
  stored, it returns the freshly generated token and stores it, without any error.
  The generated token is made of the 32 random bytes of the draw: in the monolithic
  script their base64 text, 44 characters that decode back to the draw; in database.js
  their 64 hexadecimal digits, which read back as the draw. So it is not empty, after
  any call the stored token is the one returned and is present, and a second call
  returns the token of the first. This is stated for the monolithic script first and
  for database.js second.
\<close>

theorem auth_token_stable:
  "(\<not> falsy (ls DB_AUTH_TOKEN_KEY) \<longrightarrow>
      getOrCreateAuthToken r ls = (the (ls DB_AUTH_TOKEN_KEY), ls)
    \<and> snd (initializeDatabase e namespace schemaText ls) DB_AUTH_TOKEN_KEY = ls DB_AUTH_TOKEN_KEY
    \<and> snd (addDatabaseRecord e dataText ls) DB_AUTH_TOKEN_KEY = ls DB_AUTH_TOKEN_KEY
    \<and> snd (retrieveDatabaseSchema e ls) DB_AUTH_TOKEN_KEY = ls DB_AUTH_TOKEN_KEY
    \<and> snd (retrieveDatabaseRecords e ls) DB_AUTH_TOKEN_KEY = ls DB_AUTH_TOKEN_KEY)
   \<and> (falsy (ls DB_AUTH_TOKEN_KEY) \<longrightarrow>
        getOrCreateAuthToken r ls =
          (generateAuthToken r, ls(DB_AUTH_TOKEN_KEY \<mapsto> generateAuthToken r)))
   \<and> (length r = 32 \<longrightarrow>
        length (generateAuthToken r) = 44
      \<and> atob (generateAuthToken r) = Some (map fromCharCode r)
      \<and> snd (getOrCreateAuthToken r ls) DB_AUTH_TOKEN_KEY =
          Some (fst (getOrCreateAuthToken r ls))
      \<and> \<not> falsy (snd (getOrCreateAuthToken r ls) DB_AUTH_TOKEN_KEY)
      \<and> fst (getOrCreateAuthToken r' (snd (getOrCreateAuthToken r ls))) =
          fst (getOrCreateAuthToken r ls))
   \<and> (\<not> falsy (ls database_DB_TOKEN_KEY) \<longrightarrow>
        database_getOrCreateAuthToken r ls = (the (ls database_DB_TOKEN_KEY), ls)
      \<and> snd (database_initializeDatabase d namespace sch ls) database_DB_TOKEN_KEY =
          ls database_DB_TOKEN_KEY
      \<and> snd (database_addDatabaseRecord d entry ls) database_DB_TOKEN_KEY =
          ls database_DB_TOKEN_KEY
      \<and> snd (database_retrieveDatabaseSchema d ls) database_DB_TOKEN_KEY =
          ls database_DB_TOKEN_KEY
      \<and> snd (database_retrieveDatabaseRecords d ls) database_DB_TOKEN_KEY =
          ls database_DB_TOKEN_KEY)
   \<and> (falsy (ls database_DB_TOKEN_KEY) \<longrightarrow>
        database_getOrCreateAuthToken r ls =
          (database_generateAuthToken r,
           ls(database_DB_TOKEN_KEY \<mapsto> database_generateAuthToken r)))
   \<and> (length r = 32 \<longrightarrow>
        length (database_generateAuthToken r) = 64
      \<and> hex_pairs (database_generateAuthToken r) = map unat r
      \<and> snd (database_getOrCreateAuthToken r ls) database_DB_TOKEN_KEY =
          Some (fst (database_getOrCreateAuthToken r ls))
      \<and> \<not> falsy (snd (database_getOrCreateAuthToken r ls) database_DB_TOKEN_KEY)
      \<and> fst (database_getOrCreateAuthToken r' (snd (database_getOrCreateAuthToken r ls))) =
          fst (database_getOrCreateAuthToken r ls))"
proof -
  have ne: "r \<noteq> []" if "length r = 32"
    using that by auto
  have len: "length (database_generateAuthToken r) = 64" if "length r = 32"
    using that by (simp add: length_database_generateAuthToken)
  show ?thesis
    using getOrCreate_existing[of ls r] getOrCreate_missing[of ls r]
      initializeDatabase_keeps_token[of ls e namespace schemaText]
      addDatabaseRecord_keeps_token[of ls e dataText]
      retrieveDatabaseSchema_keeps_token[of ls e]
      retrieveDatabaseRecords_keeps_token[of ls e]
      getOrCreate_twice[OF ne, of r' ls]
      length_generateAuthToken[of r] generateAuthToken_draw[of r]
      getOrCreate_stores[of r ls] getOrCreate_present[OF ne, of ls]
      database_getOrCreate_existing[of ls r] database_getOrCreate_missing[of ls r]
      database_initializeDatabase_keeps_token[of ls d namespace sch]
      database_addDatabaseRecord_keeps_token[of ls d entry]
      database_retrieveDatabaseSchema_keeps_token[of ls d]
      database_retrieveDatabaseRecords_keeps_token[of ls d]
      database_getOrCreate_twice[OF ne, of r' ls]
      len database_generateAuthToken_draw[of r]
      database_getOrCreate_stores[of r ls] database_getOrCreate_present[OF ne, of ls]
    by blast
qed

theorem auth_token_stable_witness:
  "\<not> falsy (toy_store DB_AUTH_TOKEN_KEY)
   \<and> getOrCreateAuthToken (random_token toy_env) toy_store = (''secret'', toy_store)
   \<and> snd (retrieveDatabaseRecords toy_env toy_store) DB_AUTH_TOKEN_KEY = Some ''secret''
   \<and> snd (addDatabaseRecord toy_env ''{}'' toy_store) DB_AUTH_TOKEN_KEY = Some ''secret''
   \<and> falsy (toy_store_no_token DB_AUTH_TOKEN_KEY)
   \<and> length (random_token toy_env) = 32
   \<and> fst (getOrCreateAuthToken (random_token toy_env) toy_store_no_token) =
       ''BwcHBwcHBwcHBwcHBwcHBwcHBwcHBwcHBwcHBwcHBwc=''
   \<and> atob ''BwcHBwcHBwcHBwcHBwcHBwcHBwcHBwcHBwcHBwcHBwc='' =
       Some (map fromCharCode (random_token toy_env))
   \<and> snd (getOrCreateAuthToken (random_token toy_env) toy_store_no_token) DB_AUTH_TOKEN_KEY =
       Some ''BwcHBwcHBwcHBwcHBwcHBwcHBwcHBwcHBwcHBwcHBwc=''
   \<and> fst (getOrCreateAuthToken (replicate 32 9)
            (snd (getOrCreateAuthToken (random_token toy_env) toy_store_no_token))) =
       ''BwcHBwcHBwcHBwcHBwcHBwcHBwcHBwcHBwcHBwcHBwc=''
   \<and> \<not> falsy (toy_database_store database_DB_TOKEN_KEY)
   \<and> snd (database_retrieveDatabaseRecords toy_database_env toy_database_store)
         database_DB_TOKEN_KEY = Some ''0707''
   \<and> length (database_generateAuthToken (random_token toy_env)) = 64
   \<and> hex_pairs (database_generateAuthToken (random_token toy_env)) =
       map unat (random_token toy_env)"
proof -
  have h1: "\<not> falsy (toy_store DB_AUTH_TOKEN_KEY)"
    by code_simp
  have v1: "the (toy_store DB_AUTH_TOKEN_KEY) = ''secret''"
    "toy_store DB_AUTH_TOKEN_KEY = Some ''secret''"
    by code_simp+
  have h2: "falsy (toy_store_no_token DB_AUTH_TOKEN_KEY)"
    by code_simp
  have h3: "length (random_token toy_env) = 32"
    by code_simp
  have h4: "\<not> falsy (toy_database_store database_DB_TOKEN_KEY)"
    by code_simp
  have v4: "toy_database_store database_DB_TOKEN_KEY = Some ''0707''"
    by code_simp
  have v2: "generateAuthToken (random_token toy_env) =
      ''BwcHBwcHBwcHBwcHBwcHBwcHBwcHBwcHBwcHBwcHBwc=''"
    by code_simp
  note a = auth_token_stable[where ls = toy_store and r = "random_token toy_env"
      and e = toy_env and namespace = toy_namespace and schemaText = "''{}''"
      and dataText = "''{}''" and r' = "replicate 32 9" and d = toy_database_env
      and sch = JNull and entry = JNull]
  note b = auth_token_stable[where ls = toy_store_no_token and r = "random_token toy_env"
      and e = toy_env and namespace = toy_namespace and schemaText = "''{}''"
      and dataText = "''{}''" and r' = "replicate 32 9" and d = toy_database_env
      and sch = JNull and entry = JNull]
  note c = auth_token_stable[where ls = toy_database_store and r = "random_token toy_env"
      and e = toy_env and namespace = toy_namespace and schemaText = "''{}''"
      and dataText = "''{}''" and r' = "replicate 32 9" and d = toy_database_env
      and sch = JNull and entry = JNull]
  have c2: "getOrCreateAuthToken (random_token toy_env) toy_store = (''secret'', toy_store)"
    using a h1 v1(1) by simp
  have c3: "snd (retrieveDatabaseRecords toy_env toy_store) DB_AUTH_TOKEN_KEY = Some ''secret''"
    using a h1 v1(2) by simp
  have c4: "snd (addDatabaseRecord toy_env ''{}'' toy_store) DB_AUTH_TOKEN_KEY = Some ''secret''"
    using a h1 v1(2) by simp
  have c7: "fst (getOrCreateAuthToken (random_token toy_env) toy_store_no_token) =
      ''BwcHBwcHBwcHBwcHBwcHBwcHBwcHBwcHBwcHBwcHBwc=''"
    using b h2 v2 by simp
  have c5: "atob ''BwcHBwcHBwcHBwcHBwcHBwcHBwcHBwcHBwcHBwcHBwc='' =
      Some (map fromCharCode (random_token toy_env))"
    using b h3 unfolding v2 by blast
  have c6: "snd (getOrCreateAuthToken (random_token toy_env) toy_store_no_token)
      DB_AUTH_TOKEN_KEY = Some ''BwcHBwcHBwcHBwcHBwcHBwcHBwcHBwcHBwcHBwcHBwc=''"
    using b h3 unfolding c7 by blast
  have c8: "fst (getOrCreateAuthToken (replicate 32 9)
            (snd (getOrCreateAuthToken (random_token toy_env) toy_store_no_token))) =
      ''BwcHBwcHBwcHBwcHBwcHBwcHBwcHBwcHBwcHBwcHBwc=''"
    using b h3 c7 by simp
  have c9: "snd (database_retrieveDatabaseRecords toy_database_env toy_database_store)
         database_DB_TOKEN_KEY = Some ''0707''"
    using c h4 v4 by simp
  have c10: "length (database_generateAuthToken (random_token toy_env)) = 64"
    using c h3 by blast
  have c11: "hex_pairs (database_generateAuthToken (random_token toy_env)) =
      map unat (random_token toy_env)"
    using c h3 by blast
  show ?thesis
    using h1 c2 c3 c4 h2 h3 c7 c5 c6 c8 h4 c9 c10 c11 by blast
qed

section \<open>Creating a namespace from text\<close>





section \<open>Display form of a namespace\<close>

lemma b64enc_inj:
  assumes "b64enc xs = b64enc ys"
  shows "xs = ys"
proof -
  have "Buffer_from_base64 (b64enc xs) = Buffer_from_base64 (b64enc ys)"
    by (simp only: assms)
  then show ?thesis
    by (simp only: Buffer_from_base64_b64enc)
qed

text \<open>
  Claim C7, as the code has it. In utils/common.js, converting a valid base64 string
  (so every valid namespace) to its display form and back is the identity. In the
  monolithic script the display form of a 29-byte namespace is the hexadecimal text of
  its last 10 bytes only; \<^verbatim>\<open>hexToBase64\<close> of it is the base64 text of those 10 bytes,
  which is never the namespace; the namespace is rebuilt by \<^verbatim>\<open>retrieveBlob\<close> as 19
  zero bytes followed by those 10 bytes, which restores it exactly when its first 19
  bytes are zero.
\<close>

theorem display_form_round_trip:
  "(isValidBase64 n \<longrightarrow> common_hexToBase64 (common_base64ToHex n) = n)
   \<and> (length (Buffer_from_base64 n) = 29 \<longrightarrow>
        base64ToHex n = Buffer_toString_hex (drop 19 (Buffer_from_base64 n))
      \<and> hexToBase64 (base64ToHex n) = b64enc (drop 19 (Buffer_from_base64 n))
      \<and> retrieveBlob_namespace (base64ToHex n) =
          Some (b64enc (replicate 19 0 @ drop 19 (Buffer_from_base64 n))))
   \<and> (length bs = 29 \<longrightarrow>
        hexToBase64 (base64ToHex (b64enc bs)) \<noteq> b64enc bs
      \<and> (retrieveBlob_namespace (base64ToHex (b64enc bs)) = Some (b64enc bs)
           \<longleftrightarrow> take 19 bs = replicate 19 0))"
proof -
  have a: "common_hexToBase64 (common_base64ToHex n) = n" if "isValidBase64 n"
    using that by (rule common_roundtrip_valid)
  have b: "base64ToHex n = Buffer_toString_hex (drop 19 (Buffer_from_base64 n))
      \<and> hexToBase64 (base64ToHex n) = b64enc (drop 19 (Buffer_from_base64 n))
      \<and> retrieveBlob_namespace (base64ToHex n) =
          Some (b64enc (replicate 19 0 @ drop 19 (Buffer_from_base64 n)))"
    if "length (Buffer_from_base64 n) = 29"
    using monolith_display_form[OF that] by simp
  have c: "hexToBase64 (base64ToHex (b64enc bs)) \<noteq> b64enc bs
      \<and> (retrieveBlob_namespace (base64ToHex (b64enc bs)) = Some (b64enc bs)
           \<longleftrightarrow> take 19 bs = replicate 19 0)"
    if len: "length bs = 29"
  proof -
    have l: "length (Buffer_from_base64 (b64enc bs)) = 29"
      using len by (simp add: Buffer_from_base64_b64enc)
    note m = monolith_display_form(2,3)[OF l, unfolded Buffer_from_base64_b64enc]
    have "b64enc (drop 19 bs) \<noteq> b64enc bs"
    proof
      assume "b64enc (drop 19 bs) = b64enc bs"
      then have "drop 19 bs = bs" by (rule b64enc_inj)
      then have "length (drop 19 bs) = length bs" by simp
      then show False using len by simp
    qed
    moreover have "(b64enc (replicate 19 0 @ drop 19 bs) = b64enc bs)
        \<longleftrightarrow> take 19 bs = replicate 19 0"
    proof
      assume "b64enc (replicate 19 0 @ drop 19 bs) = b64enc bs"
      then have "replicate 19 0 @ drop 19 bs = bs" by (rule b64enc_inj)
      then have "take 19 (replicate 19 0 @ drop 19 bs) = take 19 bs" by simp
      then show "take 19 bs = replicate 19 0" by simp
    next
      assume "take 19 bs = replicate 19 0"
      then have "replicate 19 0 @ drop 19 bs = take 19 bs @ drop 19 bs" by simp
      then show "b64enc (replicate 19 0 @ drop 19 bs) = b64enc bs" by simp
    qed
    ultimately show ?thesis
      by (simp add: m)
  qed
  from a b c show ?thesis by blast
qed

theorem display_form_round_trip_witness:
  "isValidBase64 user_namespace
   \<and> length (Buffer_from_base64 user_namespace) = 29
   \<and> common_hexToBase64 (common_base64ToHex user_namespace) = user_namespace
   \<and> base64ToHex user_namespace = ''00000000000000006162''
   \<and> hexToBase64 (base64ToHex user_namespace) = ''AAAAAAAAAABhYg==''
   \<and> retrieveBlob_namespace (base64ToHex user_namespace) = Some user_namespace"
proof -
  have h1: "isValidBase64 user_namespace"
    by code_simp
  have h2: "length (Buffer_from_base64 user_namespace) = 29"
    by code_simp
  have v: "Buffer_toString_hex (drop 19 (Buffer_from_base64 user_namespace)) =
        ''00000000000000006162''"
      "b64enc (drop 19 (Buffer_from_base64 user_namespace)) = ''AAAAAAAAAABhYg==''"
      "b64enc (replicate 19 0 @ drop 19 (Buffer_from_base64 user_namespace)) = user_namespace"
    by code_simp+
  have r: "common_hexToBase64 (common_base64ToHex user_namespace) = user_namespace"
    "base64ToHex user_namespace =
       Buffer_toString_hex (drop 19 (Buffer_from_base64 user_namespace))"
    "hexToBase64 (base64ToHex user_namespace) =
       b64enc (drop 19 (Buffer_from_base64 user_namespace))"
    "retrieveBlob_namespace (base64ToHex user_namespace) =
       Some (b64enc (replicate 19 0 @ drop 19 (Buffer_from_base64 user_namespace)))"
    using display_form_round_trip[of user_namespace "Buffer_from_base64 user_namespace"] h1 h2
    by blast+
  show ?thesis
    using h1 h2 r unfolding v by blast
qed

text \<open>
  Claim C7 as stated fails in the monolithic script: for a namespace that its
  validation accepts, \<^verbatim>\<open>hexToBase64(base64ToHex(n))\<close> is the base64 text of 10 bytes.
\<close>

theorem display_form_not_identity_counterexample:
  "validateNamespace user_namespace = Valid
   \<and> hexToBase64 (base64ToHex user_namespace) = ''AAAAAAAAAABhYg==''
   \<and> hexToBase64 (base64ToHex user_namespace) \<noteq> user_namespace"
  by code_simp

section \<open>Namespace validation\<close>

lemma str_includes_longer: "length xs < length pat \<Longrightarrow> \<not> str_includes xs pat"
proof (induction xs)
  case Nil
  then show ?case by auto
next
  case (Cons c cs)
  have "take (length pat) (c # cs) \<noteq> pat"
  proof
    assume "take (length pat) (c # cs) = pat"
    then have "length (take (length pat) (c # cs)) = length pat" by simp
    then show False using Cons.prems by simp
  qed
  then show ?case using Cons by simp
qed

lemma str_includes_same_length:
  "length xs = length pat \<Longrightarrow> str_includes xs pat \<longleftrightarrow> xs = pat"
proof (cases xs)
  case Nil
  assume "length xs = length pat"
  then show ?thesis using Nil by auto
next
  case (Cons c cs)
  assume l: "length xs = length pat"
  then have "\<not> str_includes cs pat"
    using Cons str_includes_longer[of cs pat] by simp
  moreover have "take (length pat) (c # cs) = c # cs"
    using l Cons by simp
  ultimately show ?thesis using Cons by auto
qed

lemma hexdigit_lower:
  assumes "n < 16"
  shows "hexdigit n \<noteq> CHR ''F''"
proof
  assume eq: "hexdigit n = CHR ''F''"
  have "hexval (CHR ''F'') = Some 15"
    by (simp add: hexval_def charCodeAt_def)
  then have "n = 15"
    using hexval_hexdigit[OF assms] eq by simp
  moreover have "hexdigit 15 \<noteq> CHR ''F''"
    by code_simp
  ultimately show False using eq by simp
qed

lemma Buffer_toString_hex_lower: "CHR ''F'' \<notin> set (Buffer_toString_hex bs)"
proof (induction bs)
  case Nil
  then show ?case by (simp add: Buffer_toString_hex_def)
next
  case (Cons b bs)
  have d: "unat b div 16 < 16" "unat b mod 16 < 16"
    using unat_byte[of b] by simp_all
  show ?case
    using Cons hexdigit_lower[OF d(1)] hexdigit_lower[OF d(2)]
    by (auto simp: Buffer_toString_hex_def)
qed

lemma reserved_lengths:
  "map length RESERVED_NAMESPACES = [58, 58, 58, 58, 60, 64]"
  by (simp add: RESERVED_NAMESPACES_def)

text \<open>
  What the reserved-namespace test of the monolithic script amounts to on a 29-byte
  identifier: only the three entries of the table written with digits alone can match.
\<close>

lemma isReservedNamespace_effective:
  assumes "length (Buffer_from_base64 n) = 29"
  shows "isReservedNamespace n \<longleftrightarrow>
           Buffer_toString_hex (Buffer_from_base64 n) \<in> set (take 3 RESERVED_NAMESPACES)"
proof -
  let ?hex = "Buffer_toString_hex (Buffer_from_base64 n)"
  have len: "length ?hex = 58"
    using assms by (simp add: length_Buffer_toString_hex)
  have same: "str_includes ?hex pat \<longleftrightarrow> ?hex = pat" if "length pat = 58" for pat
    using str_includes_same_length[of ?hex pat] len that by simp
  have longer: "\<not> str_includes ?hex pat" if "58 < length pat" for pat
    using str_includes_longer[of ?hex pat] len that by simp
  have noF: "?hex \<noteq> pat" if "CHR ''F'' \<in> set pat" for pat
    using Buffer_toString_hex_lower[of "Buffer_from_base64 n"] that by auto
  have p4: "\<not> str_includes ?hex (RESERVED_NAMESPACES ! 3)"
    using same[of "RESERVED_NAMESPACES ! 3"] noF[of "RESERVED_NAMESPACES ! 3"]
    by (simp add: RESERVED_NAMESPACES_def)
  have p5: "\<not> str_includes ?hex (RESERVED_NAMESPACES ! 4)"
    using longer[of "RESERVED_NAMESPACES ! 4"] by (simp add: RESERVED_NAMESPACES_def)
  have p6: "\<not> str_includes ?hex (RESERVED_NAMESPACES ! 5)"
    using longer[of "RESERVED_NAMESPACES ! 5"] by (simp add: RESERVED_NAMESPACES_def)
  have p1: "str_includes ?hex (RESERVED_NAMESPACES ! 0) \<longleftrightarrow> ?hex = RESERVED_NAMESPACES ! 0"
    using same[of "RESERVED_NAMESPACES ! 0"] by (simp add: RESERVED_NAMESPACES_def)
  have p2: "str_includes ?hex (RESERVED_NAMESPACES ! 1) \<longleftrightarrow> ?hex = RESERVED_NAMESPACES ! 1"
    using same[of "RESERVED_NAMESPACES ! 1"] by (simp add: RESERVED_NAMESPACES_def)
  have p3: "str_includes ?hex (RESERVED_NAMESPACES ! 2) \<longleftrightarrow> ?hex = RESERVED_NAMESPACES ! 2"
    using same[of "RESERVED_NAMESPACES ! 2"] by (simp add: RESERVED_NAMESPACES_def)
  have split: "RESERVED_NAMESPACES = [RESERVED_NAMESPACES ! 0, RESERVED_NAMESPACES ! 1,
      RESERVED_NAMESPACES ! 2, RESERVED_NAMESPACES ! 3, RESERVED_NAMESPACES ! 4,
      RESERVED_NAMESPACES ! 5]"
    by (simp add: RESERVED_NAMESPACES_def)
  have tk: "take 3 RESERVED_NAMESPACES = [RESERVED_NAMESPACES ! 0, RESERVED_NAMESPACES ! 1,
      RESERVED_NAMESPACES ! 2]"
    by (simp add: RESERVED_NAMESPACES_def)
  have "isReservedNamespace n \<longleftrightarrow>
      list_ex (str_includes ?hex) [RESERVED_NAMESPACES ! 0, RESERVED_NAMESPACES ! 1,
      RESERVED_NAMESPACES ! 2, RESERVED_NAMESPACES ! 3, RESERVED_NAMESPACES ! 4,
      RESERVED_NAMESPACES ! 5]"
    unfolding isReservedNamespace_def Let_def by (subst split) simp
  then show ?thesis
    unfolding tk using p1 p2 p3 p4 p5 p6 by auto
qed
text \<open>
  The rules \<^verbatim>\<open>validateNamespace\<close> of the monolithic script enforces, in the order it
  checks them: the length, the zero bytes of a version-0 identifier, the version, and
  the three reserved entries that its test can match.
\<close>

lemma validateNamespace_rules:
  "validateNamespace n =
     (let bs = Buffer_from_base64 n in
      if length bs \<noteq> 29 then Invalid (WrongLength (length bs))
      else if hd bs = 0 \<and> (\<exists>i < 18. bs ! (i + 1) \<noteq> 0) then Invalid LeadingZeroBytes
      else if hd bs \<noteq> 0 \<and> hd bs \<noteq> 255 then Invalid (UnsupportedVersion (unat (hd bs)))
      else if Buffer_toString_hex bs \<in> set (take 3 RESERVED_NAMESPACES)
      then Invalid ReservedNamespace
      else Valid)"
proof (cases "length (Buffer_from_base64 n) = 29")
  case True
  have ex: "list_ex (\<lambda>i. Buffer_from_base64 n ! (i + 1) \<noteq> 0) [0 ..< 18] \<longleftrightarrow>
      (\<exists>i < 18. Buffer_from_base64 n ! (i + 1) \<noteq> 0)"
    by (auto simp: list_ex_iff)
  show ?thesis
    unfolding validateNamespace_def Let_def ex isReservedNamespace_effective[OF True]
    using True by auto
next
  case False
  then show ?thesis
    by (simp add: validateNamespace_def Let_def)
qed

text \<open>
  Claim C3, at two namespaces where the code departs from it. The 29 bytes
  \<open>00 \<dots> 00 FF\<close> are the
  entry \<^verbatim>\<open>PRIMARY_RESERVED_PADDING_NAMESPACE\<close> of the table of reserved namespaces, yet
  \<^verbatim>\<open>validateNamespace\<close> of the monolithic script accepts them: it looks for the
  upper-case table entry in lower-case hexadecimal text (utils/common.js, which
  compares upper-case text, rejects them). A version-0 namespace whose bytes 1 and 2
  are not zero is accepted by \<^verbatim>\<open>validateNamespace\<close> of utils/common.js, which has no
  check of bytes 1 to 18 (the monolithic script rejects it).
\<close>

theorem reserved_namespace_accepted:
  "Buffer_from_base64 reserved_padding_namespace = replicate 28 0 @ [255]
   \<and> toUpperCase (Buffer_toString_hex (Buffer_from_base64 reserved_padding_namespace)) =
       RESERVED_NAMESPACES ! 3
   \<and> validateNamespace reserved_padding_namespace = Valid
   \<and> common_validateNamespace reserved_padding_namespace = Invalid ReservedNamespace
   \<and> atob nonzero_prefix_namespace =
       Some (map fromCharCode ([0, 97, 98] @ replicate 26 0))
   \<and> common_validateNamespace nonzero_prefix_namespace = Valid
   \<and> validateNamespace nonzero_prefix_namespace = Invalid LeadingZeroBytes"
  by code_simp

section \<open>Encryption framing\<close>

text \<open>
  The framing of \<^verbatim>\<open>encryptData\<close> and \<^verbatim>\<open>decryptData\<close>: the 12-byte IV is written in
  front of the ciphertext, the whole is written as base64, and decryption splits it
  at the same place. So whenever the platform's AES-GCM decrypts under a key what it
  encrypted under that key, and its text decoder inverts its encoder on the plaintext,
  decrypting the output of encryption under the same token yields the plaintext.
\<close>

lemma encrypt_then_decrypt:
  assumes "length (random_iv e) = 12"
      and "aes_gcm_encrypt e (sha256 e (text_encode e token)) (random_iv e)
             (text_encode e plain) = Some cipher"
      and "aes_gcm_decrypt e (sha256 e (text_encode e token)) (random_iv e) cipher =
             Some (text_encode e plain)"
      and "text_decode e (text_encode e plain) = plain"
  shows "encryptData e plain token = Some (b64enc (random_iv e @ cipher))"
    and "decryptData e (b64enc (random_iv e @ cipher)) token = Some plain"
proof -
  show "encryptData e plain token = Some (b64enc (random_iv e @ cipher))"
    using assms(2) btoa_fromCharCode[of "random_iv e @ cipher"]
    by (simp add: encryptData_def Let_def)
  have "map byte_of_char (map fromCharCode (random_iv e @ cipher)) = random_iv e @ cipher"
    by (simp add: comp_def byte_of_fromCharCode)
  then show "decryptData e (b64enc (random_iv e @ cipher)) token = Some plain"
    using assms(1,3,4) by (simp add: decryptData_def atob_b64enc Let_def)
qed

end
